theory Spec2Isabelle
  imports Complex_Main "HOL-Library.Word"
begin

section \<open>The character chunker (\<^verbatim>\<open>chunk_text_by_char\<close>, main.py lines 95-100)\<close>

text \<open>
  Python's slice \<^verbatim>\<open>xs[i:j]\<close> for arbitrary integers: a negative index counts from the
  end, and both bounds are clipped to the sequence. A text is a list of characters; the
  chunker only measures and slices it, so it is modelled for any element type.
\<close>

definition py_slice :: "'a list \<Rightarrow> int \<Rightarrow> int \<Rightarrow> 'a list" where
  "py_slice xs i j =
     (let n = int (length xs);
          lo = (if i < 0 then max 0 (i + n) else min i n);
          hi = (if j < 0 then max 0 (j + n) else min j n)
      in take (nat (hi - lo)) (drop (nat lo) xs))"

text \<open>
  The \<^verbatim>\<open>while start < len(text)\<close> loop. Its parameters are Python integers, so the step
  \<open>chunk_size - overlap\<close> may be zero or negative and the loop may run forever: not
  returning is the value \<open>None\<close>.
\<close>

partial_function (option) chunk_loop ::
  "'a list \<Rightarrow> int \<Rightarrow> int \<Rightarrow> int \<Rightarrow> 'a list list \<Rightarrow> 'a list list option" where
  "chunk_loop text chunk_size overlap start chunks =
     (if start < int (length text)
      then chunk_loop text chunk_size overlap (start + (chunk_size - overlap))
             (chunks @ [py_slice text start (start + chunk_size)])
      else Some chunks)"

declare chunk_loop.simps [code]

definition chunk_text_by_char :: "'a list \<Rightarrow> int \<Rightarrow> int \<Rightarrow> 'a list list option" where
  "chunk_text_by_char text chunk_size overlap =
     (if int (length text) \<le> chunk_size then Some [text]
      else chunk_loop text chunk_size overlap 0 [])"

text \<open>
  The windows the loop emits from a given start, as a total function: the window starting
  at \<open>start\<close>, then the windows from \<open>start + step\<close>, while the start is inside the text.
  It is used to state what the loop computes when the step is positive.
\<close>

function windows :: "'a list \<Rightarrow> int \<Rightarrow> int \<Rightarrow> int \<Rightarrow> 'a list list" where
  "windows text chunk_size step start =
     (if start < int (length text) \<and> 0 < step
      then py_slice text start (start + chunk_size) # windows text chunk_size step (start + step)
      else [])"
  by pat_completeness auto
termination
  by (relation "measure (\<lambda>(text, chunk_size, step, start). nat (int (length text) - start))") auto

declare windows.simps [simp del]

section \<open>Structural cleaning (\<^verbatim>\<open>clean_text\<close>, main.py lines 92-93)\<close>

text \<open>
  A character is a code point below 256. \<open>py_isspace\<close> is the whitespace class of
  Python's \<^verbatim>\<open>str.strip\<close>, \<^verbatim>\<open>str.isspace\<close> and of \<^verbatim>\<open>\s\<close> in a \<^verbatim>\<open>str\<close> pattern on that
  range (tab to carriage return, the separators 0x1C to 0x1F, space, 0x85 and 0xA0), and
  \<open>py_isdecimal\<close> is the class of \<^verbatim>\<open>\d\<close> there (the digits 0 to 9).
\<close>

definition nl :: char where
  "nl = CHR 0x0A"

definition py_isspace :: "char \<Rightarrow> bool" where
  "py_isspace c =
     (let n = (of_char c :: nat)
      in (9 \<le> n \<and> n \<le> 13) \<or> (28 \<le> n \<and> n \<le> 32) \<or> n = 133 \<or> n = 160)"

definition py_isdecimal :: "char \<Rightarrow> bool" where
  "py_isdecimal c = (let n = (of_char c :: nat) in 48 \<le> n \<and> n \<le> 57)"

text \<open>
  The four patterns of \<open>clean_text\<close> are sequences of character classes, each taken
  once, zero or more times, or one or more times. \<open>match_here\<close> is the backtracking
  matcher of Python's \<^verbatim>\<open>re\<close> on such sequences: a repetition is greedy, it takes one more
  character first and gives it back when the rest of the pattern fails. It returns the
  text left after the match.
\<close>

datatype quant = One | Star | Plus

type_synonym atom = "quant \<times> (char \<Rightarrow> bool)"

fun match_here :: "atom list \<Rightarrow> string \<Rightarrow> string option" where
  "match_here [] s = Some s"
| "match_here ((One, p) # r) [] = None"
| "match_here ((One, p) # r) (c # cs) = (if p c then match_here r cs else None)"
| "match_here ((Plus, p) # r) [] = None"
| "match_here ((Plus, p) # r) (c # cs) =
     (if p c then match_here ((Star, p) # r) cs else None)"
| "match_here ((Star, p) # r) [] = match_here r []"
| "match_here ((Star, p) # r) (c # cs) =
     (if p c
      then (case match_here ((Star, p) # r) cs of
              Some rest \<Rightarrow> Some rest
            | None \<Rightarrow> match_here r (c # cs))
      else match_here r (c # cs))"

text \<open>
  \<^verbatim>\<open>re.sub(pattern, repl, text)\<close>: the leftmost match is replaced and the scan goes on
  after it; where the pattern does not match, the character is kept. An empty match is
  replaced and the scan moves one character on (none of the four patterns matches the
  empty text).
\<close>

function re_sub :: "atom list \<Rightarrow> string \<Rightarrow> string \<Rightarrow> string" where
  "re_sub pat repl [] = (case match_here pat [] of Some rest \<Rightarrow> repl | None \<Rightarrow> [])"
| "re_sub pat repl (c # cs) =
     (case match_here pat (c # cs) of
        None \<Rightarrow> c # re_sub pat repl cs
      | Some rest \<Rightarrow>
          if length rest < length (c # cs) then repl @ re_sub pat repl rest
          else repl @ c # re_sub pat repl cs)"
  by pat_completeness auto
termination
  by (relation "measure (\<lambda>(pat, repl, s). length s)") auto

definition lit :: "char \<Rightarrow> char \<Rightarrow> bool" where
  "lit a c = (c = a)"

definition dot :: "char \<Rightarrow> bool" where
  "dot c = (c \<noteq> nl)"

text \<open>
  The patterns \<^verbatim>\<open>\|.*\|\<close>, \<^verbatim>\<open>\[\d+\]\<close>, \<^verbatim>\<open>#+\s.*\<close> and \<^verbatim>\<open>\n\s*\n\<close>; the dot matches
  every character but the newline.
\<close>

definition table_re :: "atom list" where
  "table_re = [(One, lit CHR ''|''), (Star, dot), (One, lit CHR ''|'')]"

definition citation_re :: "atom list" where
  "citation_re = [(One, lit CHR ''[''), (Plus, py_isdecimal), (One, lit CHR '']'')]"

definition header_re :: "atom list" where
  "header_re = [(Plus, lit CHR ''#''), (One, py_isspace), (Star, dot)]"

definition blank_re :: "atom list" where
  "blank_re = [(One, lit nl), (Star, py_isspace), (One, lit nl)]"

definition py_strip :: "string \<Rightarrow> string" where
  "py_strip s = rev (dropWhile py_isspace (rev (dropWhile py_isspace s)))"

definition clean_text :: "string \<Rightarrow> string" where
  "clean_text text =
     py_strip (re_sub blank_re [nl] (re_sub header_re [] (re_sub citation_re []
       (re_sub table_re [] text))))"

section \<open>Values, exceptions and prompt templates\<close>

text \<open>
  An exception is a value. \<open>JSONDecodeError\<close> and \<open>ValueError\<close> are kept apart from
  every other exception of class \<^verbatim>\<open>Exception\<close> (\<open>OtherError\<close>) because the reduce phase
  catches exactly these two (line 161). \<open>BaseException\<close> stands for the exceptions that
  are not instances of \<^verbatim>\<open>Exception\<close> (\<^verbatim>\<open>asyncio.CancelledError\<close>, \<^verbatim>\<open>KeyboardInterrupt\<close>,
  \<^verbatim>\<open>SystemExit\<close>): a clause \<^verbatim>\<open>except Exception\<close> does not catch them. \<open>is_Exception e\<close> is
  \<^verbatim>\<open>isinstance(e, Exception)\<close>. The text of an exception is what Python's \<^verbatim>\<open>str(e)\<close>
  gives; for an \<open>HTTPException\<close> that is the status code, a colon and the detail.
\<close>

type_synonym bytes = "8 word list"

type_synonym embedding = "real list"

datatype exn =
    HTTPException nat string
  | JSONDecodeError string
  | ValueError string
  | OtherError string
  | BaseException string

fun is_Exception :: "exn \<Rightarrow> bool" where
  "is_Exception (HTTPException status detail) = True"
| "is_Exception (JSONDecodeError msg) = True"
| "is_Exception (ValueError msg) = True"
| "is_Exception (OtherError msg) = True"
| "is_Exception (BaseException msg) = False"

function str_nat :: "nat \<Rightarrow> string" where
  "str_nat n =
     (if n < 10 then [char_of (48 + n)]
      else str_nat (n div 10) @ [char_of (48 + n mod 10)])"
  by pat_completeness auto
termination
  by (relation "measure id") auto

declare str_nat.simps [simp del]

fun str_exn :: "exn \<Rightarrow> string" where
  "str_exn (HTTPException status detail) = str_nat status @ '': '' @ detail"
| "str_exn (JSONDecodeError msg) = msg"
| "str_exn (ValueError msg) = msg"
| "str_exn (OtherError msg) = msg"
| "str_exn (BaseException msg) = msg"

datatype json =
    JNull
  | JBool bool
  | JNumber real
  | JString string
  | JArray "json list"
  | JObject "(string \<times> json) list"

fun py_join :: "string \<Rightarrow> string list \<Rightarrow> string" where
  "py_join sep [] = []"
| "py_join sep [x] = x"
| "py_join sep (x # y # ys) = x @ sep @ py_join sep (y # ys)"

definition endswith :: "string \<Rightarrow> string \<Rightarrow> bool" where
  "endswith s suffix =
     (length suffix \<le> length s \<and> drop (length s - length suffix) s = suffix)"

definition py_str_isspace :: "string \<Rightarrow> bool" where
  "py_str_isspace s = (s \<noteq> [] \<and> list_all py_isspace s)"

text \<open>
  \<^verbatim>\<open>str(uuid.uuid4())\<close>: the 128-bit value drawn by \<^verbatim>\<open>uuid4\<close> is an input of the request;
  its text is 32 lower-case hexadecimal digits in the groups 8-4-4-4-12.
\<close>

definition hex32 :: "128 word \<Rightarrow> string" where
  "hex32 u =
     map (\<lambda>i. ''0123456789abcdef'' ! unat (take_bit 4 (drop_bit (4 * (31 - i)) u))) [0..<32]"

definition str_uuid :: "128 word \<Rightarrow> string" where
  "str_uuid u =
     (let h = hex32 u
      in take 8 h @ ''-'' @ take 4 (drop 8 h) @ ''-'' @ take 4 (drop 12 h) @ ''-'' @
         take 4 (drop 16 h) @ ''-'' @ drop 20 h)"

text \<open>
  \<^verbatim>\<open>PROMPT_TEMPLATES\<close> (lines 102-113): a template with one \<^verbatim>\<open>{placeholder}\<close> is the
  function that \<^verbatim>\<open>str.format\<close> computes from it.
\<close>

record prompts =
  map_system :: string
  map_user :: "string \<Rightarrow> string"
  reduce_system :: string
  reduce_user :: "string \<Rightarrow> string"
  qa_system :: string
  qa_user :: "string \<Rightarrow> string \<Rightarrow> string"

definition prompts_en :: prompts where
  "prompts_en = \<lparr>
     map_system = ''Summarize the key points of the following text in a single, well-written paragraph in English.'',
     map_user = (\<lambda>chunk. ''Please summarize this text: '' @ chunk),
     reduce_system = ''You are an expert academic research summarizer. Generate a final structured summary in a valid JSON format in English. The JSON keys must be: 'research_objective', 'methods', 'main_results', 'conclusions'. If a key's information is not found, return an empty string.'',
     reduce_user = (\<lambda>combined_summary.
        ''Here are the summaries:'' @ [nl, nl] @ ''---'' @ [nl] @ combined_summary @ [nl] @ ''---''),
     qa_system = ''You are a helpful Q&A assistant. Based on the provided context, answer the user's question **in the same language they used for the question**. If the context isn't relevant or doesn't contain the answer, state that you cannot answer based on the information.'',
     qa_user = (\<lambda>context question.
        ''Context:'' @ [nl] @ ''---'' @ [nl] @ context @ [nl] @ ''---'' @ [nl] @
        ''Question: '' @ question) \<rparr>"

definition prompts_id :: prompts where
  "prompts_id = \<lparr>
     map_system = ''Ringkaslah poin-poin utama dari teks berikut dalam satu paragraf yang ditulis dengan baik dalam Bahasa Indonesia.'',
     map_user = (\<lambda>chunk. ''Tolong ringkas teks ini: '' @ chunk),
     reduce_system = ''Anda adalah seorang ahli peringkas riset akademis. Buatlah sebuah ringkasan akhir terstruktur dalam format JSON yang valid dalam Bahasa Indonesia. Kunci JSON harus: 'research_objective', 'methods', 'main_results', 'conclusions'. Jika informasi untuk kunci tidak ditemukan, kembalikan string kosong.'',
     reduce_user = (\<lambda>combined_summary.
        ''Berikut adalah kumpulan ringkasan:'' @ [nl, nl] @ ''---'' @ [nl] @ combined_summary @
        [nl] @ ''---''),
     qa_system = ''Anda adalah asisten Tanya Jawab yang membantu. Berdasarkan konteks yang diberikan, jawab pertanyaan pengguna **dalam bahasa yang sama dengan yang mereka gunakan untuk bertanya**. Jika konteks tidak relevan atau tidak berisi jawaban, nyatakan bahwa Anda tidak dapat menjawab berdasarkan informasi yang diberikan.'',
     qa_user = (\<lambda>context question.
        ''Konteks:'' @ [nl] @ ''---'' @ [nl] @ context @ [nl] @ ''---'' @ [nl] @
        ''Pertanyaan: '' @ question) \<rparr>"

definition PROMPT_TEMPLATES :: "string \<Rightarrow> prompts option" where
  "PROMPT_TEMPLATES lang =
     (if lang = ''en'' then Some prompts_en
      else if lang = ''id'' then Some prompts_id
      else None)"

definition no_context_id :: string where
  "no_context_id = ''Hmm, saya tidak melihat jawaban yang pas dari data saat ini. Bisa jadi pertanyaannya perlu sedikit diperjelas.''"

definition no_context_en :: string where
  "no_context_en = ''Hmm, I can't seem to find a suitable answer from the current data. Perhaps the question could be clarified a bit.''"

definition NO_CONTEXT_MESSAGES :: "string \<Rightarrow> string option" where
  "NO_CONTEXT_MESSAGES lang =
     (if lang = ''id'' then Some no_context_id
      else if lang = ''en'' then Some no_context_en
      else None)"

section \<open>Collaborators, the vector store and the trace of external calls\<close>

text \<open>
  The converter, the language model, the embedding model, the JSON parser and the
  nearest-neighbour search of the store are black boxes: functions of an environment
  \<open>env\<close>, each returning a value or raising. The language model also sees how many calls
  were made before, so it may answer the same request differently. \<open>store_fault\<close> is a
  failure of the store itself (disk, lock, cancellation) on an operation and a collection
  name.

  The world is the content of the store (collections by name) and the trace of the
  external calls made so far, in order.
\<close>

record chat_request =
  messages :: "(string \<times> string) list"
  max_tokens :: nat
  temperature :: real
  json_object :: bool

record query_result =
  documents :: "string list list"
  distances :: "real list list"

record collection =
  entries :: "(string \<times> embedding \<times> string) list"

datatype store_op = OpCreate | OpAdd | OpDelete | OpGet

datatype event =
    EvTempWrite
  | EvTempRemove string
  | EvConvert
  | EvLLM chat_request
  | EvEmbedDocuments "string list"
  | EvEmbedQuery string
  | EvCreate string
  | EvAdd string
  | EvDelete string
  | EvGet string
  | EvQuery string nat

record env =
  tmp_write :: "bytes \<Rightarrow> exn + string"
  convert :: "bytes \<Rightarrow> exn + string"
  llm :: "nat \<Rightarrow> chat_request \<Rightarrow> exn + string"
  json_loads :: "string \<Rightarrow> exn + json"
  embed_documents :: "string list \<Rightarrow> exn + embedding list"
  embed_query :: "string \<Rightarrow> exn + embedding"
  query_nearest :: "collection \<Rightarrow> embedding \<Rightarrow> nat \<Rightarrow> exn + query_result"
  store_fault :: "store_op \<Rightarrow> string \<Rightarrow> exn option"

record world =
  collections :: "string \<Rightarrow> collection option"
  trace :: "event list"

type_synonym 'a io = "(exn + 'a) \<times> world"

text \<open>
  A computation returns a value or the exception that leaves it, and the world after it.
  \<open>bind_io\<close> is sequencing: an exception skips the rest. \<open>except_Exception handler m\<close>
  is \<^verbatim>\<open>try: m except Exception as e: handler(e)\<close>: the handler runs for an exception of
  class \<^verbatim>\<open>Exception\<close> only, any other exception leaves the statement as it is.
\<close>

definition emit :: "event \<Rightarrow> world \<Rightarrow> world" where
  "emit ev w = w\<lparr>trace := trace w @ [ev]\<rparr>"

definition bind_io :: "'a io \<Rightarrow> ('a \<Rightarrow> world \<Rightarrow> 'b io) \<Rightarrow> 'b io" where
  "bind_io m f = (case m of (Inl e, w) \<Rightarrow> (Inl e, w) | (Inr x, w) \<Rightarrow> f x w)"

definition except_Exception :: "(exn \<Rightarrow> world \<Rightarrow> 'a io) \<Rightarrow> 'a io \<Rightarrow> 'a io" where
  "except_Exception handler m =
     (case m of
        (Inl e, w) \<Rightarrow> if is_Exception e then handler e w else (Inl e, w)
      | (Inr x, w) \<Rightarrow> (Inr x, w))"

fun llm_calls :: "event list \<Rightarrow> chat_request list" where
  "llm_calls [] = []"
| "llm_calls (EvLLM req # evs) = req # llm_calls evs"
| "llm_calls (ev # evs) = llm_calls evs"

fun deleted :: "event list \<Rightarrow> string list" where
  "deleted [] = []"
| "deleted (EvDelete name # evs) = name # deleted evs"
| "deleted (ev # evs) = deleted evs"

definition create_chat_completion :: "env \<Rightarrow> chat_request \<Rightarrow> world \<Rightarrow> string io" where
  "create_chat_completion env req w =
     (llm env (length (llm_calls (trace w))) req, emit (EvLLM req) w)"

text \<open>
  The store: \<open>create_collection\<close> raises when the name exists, \<open>get_collection\<close> and
  \<open>delete_collection\<close> raise when it does not, and \<open>add\<close> raises on an empty batch or on
  lists of unequal length; otherwise each does what its name says.
\<close>

definition create_collection :: "env \<Rightarrow> string \<Rightarrow> world \<Rightarrow> unit io" where
  "create_collection env name w =
     (let w1 = emit (EvCreate name) w
      in case store_fault env OpCreate name of
           Some e \<Rightarrow> (Inl e, w1)
         | None \<Rightarrow>
             (case collections w1 name of
                Some c \<Rightarrow> (Inl (ValueError (''Collection '' @ name @ '' already exists'')), w1)
              | None \<Rightarrow> (Inr (), w1\<lparr>collections := (collections w1)(name \<mapsto> \<lparr>entries = []\<rparr>)\<rparr>)))"

definition collection_add ::
  "env \<Rightarrow> string \<Rightarrow> embedding list \<Rightarrow> string list \<Rightarrow> string list \<Rightarrow> world \<Rightarrow> unit io" where
  "collection_add env name embs docs ids w =
     (let w1 = emit (EvAdd name) w
      in case store_fault env OpAdd name of
           Some e \<Rightarrow> (Inl e, w1)
         | None \<Rightarrow>
             (case collections w1 name of
                None \<Rightarrow> (Inl (ValueError (''Collection '' @ name @ '' does not exist'')), w1)
              | Some c \<Rightarrow>
                  if ids = [] \<or> length embs \<noteq> length ids \<or> length docs \<noteq> length ids
                  then (Inl (ValueError ''Unequal or empty lists of ids, embeddings and documents''), w1)
                  else (Inr (), w1\<lparr>collections := (collections w1)
                          (name \<mapsto> \<lparr>entries = entries c @ zip ids (zip embs docs)\<rparr>)\<rparr>)))"

definition delete_collection :: "env \<Rightarrow> string \<Rightarrow> world \<Rightarrow> unit io" where
  "delete_collection env name w =
     (let w1 = emit (EvDelete name) w
      in case store_fault env OpDelete name of
           Some e \<Rightarrow> (Inl e, w1)
         | None \<Rightarrow>
             (case collections w1 name of
                None \<Rightarrow> (Inl (ValueError (''Collection '' @ name @ '' does not exist'')), w1)
              | Some c \<Rightarrow> (Inr (), w1\<lparr>collections := (collections w1)(name := None)\<rparr>)))"

definition get_collection :: "env \<Rightarrow> string \<Rightarrow> world \<Rightarrow> collection io" where
  "get_collection env name w =
     (let w1 = emit (EvGet name) w
      in case store_fault env OpGet name of
           Some e \<Rightarrow> (Inl e, w1)
         | None \<Rightarrow>
             (case collections w1 name of
                None \<Rightarrow> (Inl (ValueError (''Collection '' @ name @ '' does not exist'')), w1)
              | Some c \<Rightarrow> (Inr c, w1)))"

definition collection_query ::
  "env \<Rightarrow> string \<Rightarrow> collection \<Rightarrow> embedding \<Rightarrow> nat \<Rightarrow> world \<Rightarrow> query_result io" where
  "collection_query env name c query_embedding n_results w =
     (query_nearest env c query_embedding n_results, emit (EvQuery name n_results) w)"

section \<open>Endpoint \<^verbatim>\<open>/summarize\<close> (\<^verbatim>\<open>summarize_pdf\<close>, main.py lines 131-181)\<close>

record upload =
  filename :: string
  content :: bytes

datatype response =
    RootResponse string
  | SummaryResponse string "(string \<times> json) list" string
  | AnswerResponse string

definition dict_get :: "(string \<times> json) list \<Rightarrow> string \<Rightarrow> json \<Rightarrow> json" where
  "dict_get d key dflt = (case map_of d key of Some v \<Rightarrow> v | None \<Rightarrow> dflt)"

text \<open>
  Line 160: the display record built from the parsed reduce output. \<^verbatim>\<open>dict.get\<close> exists
  on a JSON object only; any other JSON value raises \<^verbatim>\<open>AttributeError\<close>.
\<close>

fun build_final_summary :: "json \<Rightarrow> exn + (string \<times> json) list" where
  "build_final_summary (JObject structured_summary) =
     Inr [(''Tujuan Penelitian'',
             dict_get structured_summary ''research_objective'' (JString ''Tidak ditemukan.'')),
          (''Metode'', dict_get structured_summary ''methods'' (JString ''Tidak ditemukan.'')),
          (''Hasil Utama'',
             dict_get structured_summary ''main_results'' (JString ''Tidak ditemukan.'')),
          (''Kesimpulan'',
             dict_get structured_summary ''conclusions'' (JString ''Tidak ditemukan.''))]"
| "build_final_summary other = Inl (OtherError ''AttributeError: get'')"

text \<open>
  Lines 158-162: \<^verbatim>\<open>json.loads\<close> and the construction of the record, inside the
  \<^verbatim>\<open>try\<close> that turns a \<open>JSONDecodeError\<close> or \<open>ValueError\<close> into the HTTP 500
  "Failed to parse summary from LLM."
\<close>

definition parse_summary :: "env \<Rightarrow> string \<Rightarrow> exn + (string \<times> json) list" where
  "parse_summary env llm_output_text =
     (case (case json_loads env llm_output_text of
              Inl e \<Rightarrow> Inl e
            | Inr structured_summary \<Rightarrow> build_final_summary structured_summary) of
        Inl (JSONDecodeError msg) \<Rightarrow> Inl (HTTPException 500 ''Failed to parse summary from LLM.'')
      | Inl (ValueError msg) \<Rightarrow> Inl (HTTPException 500 ''Failed to parse summary from LLM.'')
      | Inl e \<Rightarrow> Inl e
      | Inr final_summary \<Rightarrow> Inr final_summary)"

definition map_request :: "prompts \<Rightarrow> string \<Rightarrow> chat_request" where
  "map_request prompts chunk =
     \<lparr>messages = [(''system'', map_system prompts), (''user'', map_user prompts chunk)],
      max_tokens = 512, temperature = 0.2, json_object = False\<rparr>"

definition reduce_request :: "prompts \<Rightarrow> string \<Rightarrow> chat_request" where
  "reduce_request prompts combined_summary =
     \<lparr>messages = [(''system'', reduce_system prompts),
                   (''user'', reduce_user prompts combined_summary)],
      max_tokens = 1024, temperature = 0.1, json_object = True\<rparr>"

definition qa_chat_request :: "prompts \<Rightarrow> string \<Rightarrow> string \<Rightarrow> chat_request" where
  "qa_chat_request prompts context_text question_text =
     \<lparr>messages = [(''system'', qa_system prompts),
                   (''user'', qa_user prompts context_text question_text)],
      max_tokens = 512, temperature = 0.3, json_object = False\<rparr>"

text \<open>Lines 146-151: the map phase, one model call per chunk, in chunk order.\<close>

fun map_phase :: "env \<Rightarrow> prompts \<Rightarrow> string list \<Rightarrow> string list \<Rightarrow> world \<Rightarrow> string list io" where
  "map_phase env prompts [] chunk_summaries w = (Inr chunk_summaries, w)"
| "map_phase env prompts (chunk # rest) chunk_summaries w =
     (case create_chat_completion env (map_request prompts chunk) w of
        (Inl e, w1) \<Rightarrow> (Inl e, w1)
      | (Inr summary, w1) \<Rightarrow> map_phase env prompts rest (chunk_summaries @ [summary]) w1)"

text \<open>Lines 144-162: map phase, reduce call and parsing.\<close>

definition summarize :: "env \<Rightarrow> string \<Rightarrow> string \<Rightarrow> world \<Rightarrow> (string \<times> json) list io option" where
  "summarize env lang cleaned_text w =
     (case chunk_text_by_char cleaned_text 3000 200 of
        None \<Rightarrow> None
      | Some text_chunks \<Rightarrow> Some
          (case PROMPT_TEMPLATES lang of
             None \<Rightarrow> (Inl (OtherError (''KeyError: '' @ lang)), w)
           | Some prompts \<Rightarrow>
               bind_io (map_phase env prompts text_chunks [] w) (\<lambda>chunk_summaries w1.
               bind_io (create_chat_completion env
                          (reduce_request prompts (py_join [nl, nl] chunk_summaries)) w1)
                 (\<lambda>llm_output_text w2. (parse_summary env llm_output_text, w2)))))"

text \<open>Lines 164-171: retrieval chunks, embeddings, and the collection of the document.\<close>

definition vectorize :: "env \<Rightarrow> string \<Rightarrow> string \<Rightarrow> world \<Rightarrow> unit io option" where
  "vectorize env document_id cleaned_text w =
     (case chunk_text_by_char cleaned_text 1000 150 of
        None \<Rightarrow> None
      | Some doc_chunks_for_qa \<Rightarrow> Some
          (bind_io (embed_documents env doc_chunks_for_qa,
                    emit (EvEmbedDocuments doc_chunks_for_qa) w) (\<lambda>embeddings w1.
           bind_io (create_collection env document_id w1) (\<lambda>u w2.
           collection_add env document_id embeddings doc_chunks_for_qa
             (map (\<lambda>i. ''chunk_'' @ str_nat i) [0..<length doc_chunks_for_qa]) w2))))"

text \<open>Lines 140-174: the body of the \<^verbatim>\<open>try\<close> block after the upload is persisted.\<close>

definition ingest :: "env \<Rightarrow> string \<Rightarrow> upload \<Rightarrow> string \<Rightarrow> world \<Rightarrow> response io option" where
  "ingest env document_id file lang w =
     (case (convert env (content file), emit EvConvert w) of
        (Inl e, w1) \<Rightarrow> Some (Inl e, w1)
      | (Inr markdown_text, w1) \<Rightarrow>
          (let cleaned_text = clean_text markdown_text
           in if cleaned_text = [] \<or> py_str_isspace cleaned_text
              then Some (Inl (HTTPException 500 ''Failed to extract meaningful text from PDF.''), w1)
              else (case summarize env lang cleaned_text w1 of
                      None \<Rightarrow> None
                    | Some (Inl e, w2) \<Rightarrow> Some (Inl e, w2)
                    | Some (Inr final_summary, w2) \<Rightarrow>
                        (case vectorize env document_id cleaned_text w2 of
                           None \<Rightarrow> None
                         | Some (Inl e, w3) \<Rightarrow> Some (Inl e, w3)
                         | Some (Inr u, w3) \<Rightarrow>
                             Some (Inr (SummaryResponse (filename file) final_summary
                                          document_id), w3)))))"

text \<open>
  Lines 176-179: the body of the handler of \<^verbatim>\<open>except Exception as e\<close>. It tries to delete
  the collection of this document; an \<^verbatim>\<open>Exception\<close> raised by that deletion is ignored
  (\<^verbatim>\<open>except Exception: pass\<close>), any other exception leaves the handler; then it raises
  the HTTP 500 whose detail holds \<^verbatim>\<open>str(e)\<close>.
\<close>

definition internal_server_error :: "exn \<Rightarrow> exn" where
  "internal_server_error e = HTTPException 500 (''Internal server error: '' @ str_exn e)"

definition rollback :: "env \<Rightarrow> string \<Rightarrow> exn \<Rightarrow> world \<Rightarrow> response io" where
  "rollback env document_id e w =
     (case except_Exception (\<lambda>e' w1. (Inr (), w1)) (delete_collection env document_id w) of
        (Inl e', w1) \<Rightarrow> (Inl e', w1)
      | (Inr u, w1) \<Rightarrow> (Inl (internal_server_error e), w1))"

text \<open>
  The endpoint. Its result is the response, or the exception that leaves it: an
  \<open>HTTPException\<close>, which the framework turns into the HTTP error of that status, or an
  exception that line 175 does not catch. The result is \<open>None\<close> only if a chunker call
  does not return. Line 133 rejects a file name without the suffix before anything else
  happens. The handler of line 175 runs for an \<^verbatim>\<open>Exception\<close> raised while the upload is
  persisted or in the rest of the \<^verbatim>\<open>try\<close> block; the \<^verbatim>\<open>finally\<close> clause removes the
  temporary file when it was written, whatever happened.
\<close>

definition summarize_pdf ::
  "env \<Rightarrow> 128 word \<Rightarrow> upload \<Rightarrow> string \<Rightarrow> world \<Rightarrow> response io option" where
  "summarize_pdf env uuid4 file lang0 w =
     (if \<not> endswith (filename file) ''.pdf''
      then Some (Inl (HTTPException 400 ''Invalid file type. Please upload a PDF.''), w)
      else
        (let lang = (if PROMPT_TEMPLATES lang0 = None then ''en'' else lang0);
             document_id = str_uuid uuid4
         in case (tmp_write env (content file), emit EvTempWrite w) of
              (Inl e, w1) \<Rightarrow>
                Some (except_Exception (rollback env document_id) (Inl e, w1))
            | (Inr tmp_pdf_path, w1) \<Rightarrow>
                (case ingest env document_id file lang w1 of
                   None \<Rightarrow> None
                 | Some m \<Rightarrow>
                     (case except_Exception (rollback env document_id) m of
                        (r, w3) \<Rightarrow> Some (r, emit (EvTempRemove tmp_pdf_path) w3)))))"

section \<open>Endpoint \<^verbatim>\<open>/qa\<close> (\<^verbatim>\<open>question_answering\<close>, main.py lines 183-245) and the root endpoint\<close>

text \<open>
  Distances are real numbers. \<^verbatim>\<open>results['distances'][0][0]\<close> and
  \<^verbatim>\<open>results['documents'][0]\<close> raise \<^verbatim>\<open>IndexError\<close> on an empty list.
\<close>

record qa_request =
  document_id :: "string option"
  question :: string
  lang :: string

definition first_distance :: "query_result \<Rightarrow> exn + real" where
  "first_distance results =
     (case distances results of
        [] \<Rightarrow> Inl (OtherError ''IndexError'')
      | [] # ds \<Rightarrow> Inl (OtherError ''IndexError'')
      | (d # row) # ds \<Rightarrow> Inr d)"

definition first_documents :: "query_result \<Rightarrow> exn + string list" where
  "first_documents results =
     (case documents results of
        [] \<Rightarrow> Inl (OtherError ''IndexError'')
      | docs # ds \<Rightarrow> Inr docs)"

text \<open>
  Lines 195-208, step 1: the collection of the document, two nearest chunks, threshold
  1.0. An \<^verbatim>\<open>Exception\<close> raised inside is caught and means "no context".
\<close>

definition query_temp :: "env \<Rightarrow> string \<Rightarrow> embedding \<Rightarrow> world \<Rightarrow> string option io" where
  "query_temp env name query_embedding w =
     except_Exception (\<lambda>e w3. (Inr None, w3))
       (bind_io (get_collection env name w) (\<lambda>temp_collection w1.
        bind_io (collection_query env name temp_collection query_embedding 2 w1)
          (\<lambda>results w2.
             if documents results \<noteq> []
             then (case first_distance results of
                     Inl e \<Rightarrow> (Inl e, w2)
                   | Inr d \<Rightarrow>
                       if d < 1.0
                       then (case first_documents results of
                               Inl e \<Rightarrow> (Inl e, w2)
                             | Inr docs \<Rightarrow> (Inr (Some (py_join [nl, nl] docs)), w2))
                       else (Inr None, w2))
             else (Inr None, w2))))"

text \<open>Lines 211-224, step 2: the main collection, one nearest chunk, threshold 1.2.\<close>

definition query_main :: "env \<Rightarrow> embedding \<Rightarrow> world \<Rightarrow> string option io" where
  "query_main env query_embedding w =
     except_Exception (\<lambda>e w3. (Inr None, w3))
       (bind_io (get_collection env ''main_research_papers'' w) (\<lambda>main_collection w1.
        bind_io (collection_query env ''main_research_papers'' main_collection
                   query_embedding 1 w1)
          (\<lambda>results w2.
             case first_documents results of
               Inl e \<Rightarrow> (Inl e, w2)
             | Inr docs \<Rightarrow>
                 if docs \<noteq> []
                 then (case first_distance results of
                         Inl e \<Rightarrow> (Inl e, w2)
                       | Inr d \<Rightarrow>
                           if d < 1.2 then (Inr (Some (py_join [nl, nl] docs)), w2)
                           else (Inr None, w2))
                 else (Inr None, w2))))"

text \<open>
  The endpoint: the whole body is inside \<^verbatim>\<open>try ... except Exception as e\<close> (lines 185 and
  243-245), which turns an \<^verbatim>\<open>Exception\<close> into the HTTP 500 whose detail holds \<^verbatim>\<open>str(e)\<close>.
\<close>

definition question_answering :: "env \<Rightarrow> qa_request \<Rightarrow> world \<Rightarrow> response io" where
  "question_answering env request w =
     except_Exception (\<lambda>e w5. (Inl (internal_server_error e), w5))
       (bind_io (embed_query env (question request), emit (EvEmbedQuery (question request)) w)
          (\<lambda>query_embedding w1.
        bind_io (case document_id request of
                   None \<Rightarrow> (Inr None, w1)
                 | Some name \<Rightarrow>
                     if name \<noteq> [] then query_temp env name query_embedding w1
                     else (Inr None, w1))
          (\<lambda>context1 w2.
        bind_io (if context1 = None then query_main env query_embedding w2
                 else (Inr context1, w2))
          (\<lambda>context w3.
             case context of
               Some context_text \<Rightarrow>
                 (let prompts = (case PROMPT_TEMPLATES (lang request) of
                                   Some p \<Rightarrow> p | None \<Rightarrow> prompts_en)
                  in bind_io (create_chat_completion env
                                (qa_chat_request prompts context_text (question request)) w3)
                       (\<lambda>answer w4. (Inr (AnswerResponse answer), w4)))
             | None \<Rightarrow>
                 (Inr (AnswerResponse
                         (case NO_CONTEXT_MESSAGES (lang request) of
                            Some m \<Rightarrow> m
                          | None \<Rightarrow> no_context_en)), w3)))))"

definition root_endpoint :: response where
  "root_endpoint = RootResponse ''RAG Summarization API is running.''"

section \<open>Notions of the specification\<close>

text \<open>
  The templates of a language code: the Indonesian ones for \<^verbatim>\<open>id\<close>, the English ones for
  every other code. Texts joined by a blank line: the first text, then every further text
  after two newlines.
\<close>

definition templates_for :: "string \<Rightarrow> prompts" where
  "templates_for language = (if language = ''id'' then prompts_id else prompts_en)"

definition joined :: "string list \<Rightarrow> string" where
  "joined texts = (case texts of [] \<Rightarrow> [] | t # ts \<Rightarrow> t @ concat (map ((@) [nl, nl]) ts))"

text \<open>
  What the caller sees when \<open>e\<close> is raised inside an endpoint: the HTTP 500 whose detail
  is \<^verbatim>\<open>Internal server error: \<close> followed by the text of \<open>e\<close> when \<open>e\<close> is an
  \<^verbatim>\<open>Exception\<close>, and \<open>e\<close> itself otherwise.
\<close>

definition surfaced :: "exn \<Rightarrow> exn" where
  "surfaced e =
     (if is_Exception e then HTTPException 500 (''Internal server error: '' @ str_exn e) else e)"

text \<open>
  The answer of the store to a nearest-neighbour query for \<open>k\<close> results on the collection
  called \<open>name\<close>: an exception when the store fails, the collection does not exist, or
  the search raises.
\<close>

definition lookup :: "env \<Rightarrow> world \<Rightarrow> string \<Rightarrow> embedding \<Rightarrow> nat \<Rightarrow> exn + query_result" where
  "lookup env w name q k =
     (case store_fault env OpGet name of
        Some e \<Rightarrow> Inl e
      | None \<Rightarrow>
          (case collections w name of
             None \<Rightarrow> Inl (ValueError (''Collection '' @ name @ '' does not exist''))
           | Some c \<Rightarrow> query_nearest env c q k))"

text \<open>
  The outcome of a tier is \<open>Inr (Some context)\<close> when it admits, \<open>Inr None\<close> when it does
  not, and \<open>Inl e\<close> when its query raises an exception \<open>e\<close> that is not an
  \<^verbatim>\<open>Exception\<close>. Tier 1 admits when a non-empty document id is supplied, the query for the
  two nearest chunks of its collection succeeds, and the nearest distance is strictly below
  1.0; its context is the returned texts joined by a blank line. Tier 2 admits when the
  query for the nearest chunk of the main collection succeeds, returns a text, and the
  nearest distance is strictly below 1.2; its context is the returned text.
\<close>

definition tier1 :: "env \<Rightarrow> qa_request \<Rightarrow> embedding \<Rightarrow> world \<Rightarrow> exn + string option" where
  "tier1 env request q w =
     (case document_id request of
        None \<Rightarrow> Inr None
      | Some name \<Rightarrow>
          if name = [] then Inr None
          else (case lookup env w name q 2 of
                  Inl e \<Rightarrow> if is_Exception e then Inr None else Inl e
                | Inr results \<Rightarrow>
                    (case (documents results, distances results) of
                       (docs # ds, (d1 # row) # rows) \<Rightarrow>
                         if d1 < 1.0 then Inr (Some (joined docs)) else Inr None
                     | other \<Rightarrow> Inr None)))"

definition tier2 :: "env \<Rightarrow> embedding \<Rightarrow> world \<Rightarrow> exn + string option" where
  "tier2 env q w =
     (case lookup env w ''main_research_papers'' q 1 of
        Inl e \<Rightarrow> if is_Exception e then Inr None else Inl e
      | Inr results \<Rightarrow>
          (case (documents results, distances results) of
             (docs # ds, (d2 # row) # rows) \<Rightarrow>
               if docs \<noteq> [] \<and> d2 < 1.2 then Inr (Some (joined docs)) else Inr None
           | other \<Rightarrow> Inr None))"

text \<open>
  The model request for a question on a context: the system text of the language, the
  user text that holds the context and the question, at most 512 tokens, temperature 0.3.
  \<open>generated env n req\<close> is the answer to the caller when \<open>req\<close> is sent as model call
  number \<open>n\<close>: the reply of the model, or what the caller sees when the call raises.
\<close>

definition qa_request_for :: "string \<Rightarrow> string \<Rightarrow> string \<Rightarrow> chat_request" where
  "qa_request_for language context_text question_text =
     \<lparr>messages =
        [(''system'', qa_system (templates_for language)),
         (''user'',
            (if language = ''id'' then ''Konteks:'' else ''Context:'') @ [nl] @ ''---'' @ [nl] @
            context_text @ [nl] @ ''---'' @ [nl] @
            (if language = ''id'' then ''Pertanyaan: '' else ''Question: '') @ question_text)],
      max_tokens = 512, temperature = 0.3, json_object = False\<rparr>"

definition generated :: "env \<Rightarrow> nat \<Rightarrow> chat_request \<Rightarrow> exn + response" where
  "generated env n req =
     (case llm env n req of
        Inl e \<Rightarrow> Inl (surfaced e)
      | Inr answer \<Rightarrow> Inr (AnswerResponse answer))"

definition no_answer_message :: "string \<Rightarrow> string" where
  "no_answer_message language = (if language = ''id'' then no_context_id else no_context_en)"

text \<open>
  The model requests of the summary: for one chunk (at most 512 tokens, temperature 0.2),
  and for the chunk summaries, joined by a blank line (at most 1024 tokens, temperature
  0.1, JSON output).
\<close>

definition map_request_for :: "string \<Rightarrow> string \<Rightarrow> chat_request" where
  "map_request_for language chunk =
     \<lparr>messages =
        [(''system'', map_system (templates_for language)),
         (''user'',
            (if language = ''id'' then ''Tolong ringkas teks ini: ''
             else ''Please summarize this text: '') @ chunk)],
      max_tokens = 512, temperature = 0.2, json_object = False\<rparr>"

definition reduce_request_for :: "string \<Rightarrow> string list \<Rightarrow> chat_request" where
  "reduce_request_for language summaries =
     \<lparr>messages =
        [(''system'', reduce_system (templates_for language)),
         (''user'',
            (if language = ''id'' then ''Berikut adalah kumpulan ringkasan:''
             else ''Here are the summaries:'') @ [nl, nl] @ ''---'' @ [nl] @
            joined summaries @ [nl] @ ''---'')],
      max_tokens = 1024, temperature = 0.1, json_object = True\<rparr>"

text \<open>
  \<open>replies env n reqs\<close> are the replies of the model to the requests \<open>reqs\<close> sent in order
  as the calls number \<open>n\<close>, \<open>n + 1\<close>, ...; \<open>first_raised\<close> is the first exception among
  replies, and \<open>answered\<close> are the values of the replies before it.
\<close>

primrec replies :: "env \<Rightarrow> nat \<Rightarrow> chat_request list \<Rightarrow> (exn + string) list" where
  "replies env n [] = []"
| "replies env n (req # reqs) = llm env n req # replies env (Suc n) reqs"

fun first_raised :: "(exn + 'a) list \<Rightarrow> exn option" where
  "first_raised [] = None"
| "first_raised (Inl e # rs) = Some e"
| "first_raised (Inr x # rs) = first_raised rs"

fun answered :: "(exn + 'a) list \<Rightarrow> 'a list" where
  "answered [] = []"
| "answered (Inl e # rs) = []"
| "answered (Inr x # rs) = x # answered rs"

text \<open>
  The chunks of a cleaned text for the summary (3000 characters, overlap 200) and for
  retrieval (1000 characters, overlap 150), as windows.
\<close>

definition summary_chunks :: "string \<Rightarrow> string list" where
  "summary_chunks t = (if length t \<le> 3000 then [t] else windows t 3000 2800 0)"

definition retrieval_chunks :: "string \<Rightarrow> string list" where
  "retrieval_chunks t = (if length t \<le> 1000 then [t] else windows t 1000 850 0)"

text \<open>
  The map-reduce summary of a cleaned text \<open>t\<close> when \<open>n\<close> model calls were made before:
  one map request per summary chunk, in order, up to and including the first that raises;
  when none raises, the reduce request on the answers. \<open>summary_requests\<close> are the
  requests sent, and \<open>summary_reply\<close> is the first exception raised by a call, or else the
  text of the reduce reply.
\<close>

definition summary_requests :: "env \<Rightarrow> string \<Rightarrow> nat \<Rightarrow> string \<Rightarrow> chat_request list" where
  "summary_requests env language n t =
     (let reqs = map (map_request_for language) (summary_chunks t);
          rs = replies env n reqs
      in take (Suc (length (answered rs))) reqs @
         (if first_raised rs = None then [reduce_request_for language (answered rs)] else []))"

definition summary_reply :: "env \<Rightarrow> string \<Rightarrow> nat \<Rightarrow> string \<Rightarrow> exn + string" where
  "summary_reply env language n t =
     (let reqs = map (map_request_for language) (summary_chunks t);
          rs = replies env n reqs
      in case first_raised rs of
           Some e \<Rightarrow> Inl e
         | None \<Rightarrow> llm env (n + length reqs) (reduce_request_for language (answered rs)))"

text \<open>
  The exception raised when the reduce reply \<open>out\<close> is parsed and the display record is
  built, if any; and the exception raised when the retrieval chunks are embedded and
  stored in a new collection called \<open>name\<close>, if any.
\<close>

definition parse_error :: "env \<Rightarrow> string \<Rightarrow> exn option" where
  "parse_error env out =
     (case json_loads env out of
        Inl (JSONDecodeError msg) \<Rightarrow>
          Some (HTTPException 500 ''Failed to parse summary from LLM.'')
      | Inl (ValueError msg) \<Rightarrow> Some (HTTPException 500 ''Failed to parse summary from LLM.'')
      | Inl e \<Rightarrow> Some e
      | Inr (JObject d) \<Rightarrow> None
      | Inr other \<Rightarrow> Some (OtherError ''AttributeError: get''))"

definition store_error :: "env \<Rightarrow> world \<Rightarrow> string \<Rightarrow> string list \<Rightarrow> exn option" where
  "store_error env w name chunks =
     (case embed_documents env chunks of
        Inl e \<Rightarrow> Some e
      | Inr embeddings \<Rightarrow>
          (case store_fault env OpCreate name of
             Some e \<Rightarrow> Some e
           | None \<Rightarrow>
               if collections w name \<noteq> None
               then Some (ValueError (''Collection '' @ name @ '' already exists''))
               else (case store_fault env OpAdd name of
                       Some e \<Rightarrow> Some e
                     | None \<Rightarrow>
                         if chunks = [] \<or> length embeddings \<noteq> length chunks
                         then Some (ValueError
                                 ''Unequal or empty lists of ids, embeddings and documents'')
                         else None)))"

text \<open>
  The first exception raised in the \<^verbatim>\<open>try\<close> block of an ingestion, step by step:
  persisting the upload, extraction, the check that text was extracted, a model call of
  the summary, parsing, and embedding and storing; \<open>None\<close> when no step raises. The
  model requests of an ingestion are those of its summary, when the summary is reached.
\<close>

definition first_error :: "env \<Rightarrow> 128 word \<Rightarrow> upload \<Rightarrow> string \<Rightarrow> world \<Rightarrow> exn option" where
  "first_error env u file language w =
     (case tmp_write env (content file) of
        Inl e \<Rightarrow> Some e
      | Inr path \<Rightarrow>
          (case convert env (content file) of
             Inl e \<Rightarrow> Some e
           | Inr markdown \<Rightarrow>
               if clean_text markdown = [] \<or> list_all py_isspace (clean_text markdown)
               then Some (HTTPException 500 ''Failed to extract meaningful text from PDF.'')
               else (case summary_reply env language (length (llm_calls (trace w)))
                            (clean_text markdown) of
                       Inl e \<Rightarrow> Some e
                     | Inr out \<Rightarrow>
                         (case parse_error env out of
                            Some e \<Rightarrow> Some e
                          | None \<Rightarrow>
                              store_error env w (str_uuid u)
                                (retrieval_chunks (clean_text markdown))))))"

definition model_requests :: "env \<Rightarrow> upload \<Rightarrow> string \<Rightarrow> nat \<Rightarrow> chat_request list" where
  "model_requests env file language n =
     (case tmp_write env (content file) of
        Inl e \<Rightarrow> []
      | Inr path \<Rightarrow>
          (case convert env (content file) of
             Inl e \<Rightarrow> []
           | Inr markdown \<Rightarrow>
               if clean_text markdown = [] \<or> list_all py_isspace (clean_text markdown)
               then []
               else summary_requests env language n (clean_text markdown)))"

text \<open>
  The names passed to \<open>create_collection\<close> in a trace, and the trace and a collection at
  the end of a request.
\<close>

fun created :: "event list \<Rightarrow> string list" where
  "created [] = []"
| "created (EvCreate name # evs) = name # created evs"
| "created (ev # evs) = created evs"


definition final_trace :: "response io option \<Rightarrow> event list" where
  "final_trace res = (case res of None \<Rightarrow> [] | Some (r, w') \<Rightarrow> trace w')"

text \<open>
  Descriptions of a text used to state what one cleaning pass leaves behind: no position
  where a pattern matches; the first line of a text; every line holds at most one bar; no
  hash sign is followed by whitespace; the text starts with a run of whitespace that
  holds a newline.
\<close>

fun unmatched :: "atom list \<Rightarrow> string \<Rightarrow> bool" where
  "unmatched pat [] = (match_here pat [] = None)"
| "unmatched pat (c # cs) = (match_here pat (c # cs) = None \<and> unmatched pat cs)"

definition firstline :: "string \<Rightarrow> string" where
  "firstline s = takeWhile (\<lambda>c. c \<noteq> nl) s"

fun one_bar_per_line :: "string \<Rightarrow> bool" where
  "one_bar_per_line [] = True"
| "one_bar_per_line (c # cs) =
     ((c = CHR ''|'' \<longrightarrow> CHR ''|'' \<notin> set (firstline cs)) \<and> one_bar_per_line cs)"

fun hash_free :: "string \<Rightarrow> bool" where
  "hash_free [] = True"
| "hash_free [c] = True"
| "hash_free (c # d # cs) = (\<not> (c = CHR ''#'' \<and> py_isspace d) \<and> hash_free (d # cs))"

definition blank_start :: "string \<Rightarrow> bool" where
  "blank_start s = (match_here [(Star, py_isspace), (One, lit nl)] s \<noteq> None)"

section \<open>Example environments\<close>

text \<open>
  A store holding only the main collection with its placeholder entry, and one that also
  holds the collection of a document with three chunks. Collaborators that succeed, with a
  main-collection distance of 1.5; a variant whose search returns the first \<open>k\<close> texts of
  the collection at distance 0.5 and whose model replies with the user text it was sent;
  and variants in which the embedding of the question fails, the store fails on \<open>add\<close>,
  the store fails on \<open>add\<close> and \<open>delete\<close>, the request is cancelled while the upload is
  read, and the reduce output misses a key or holds an empty string.
\<close>

definition w0 :: world where
  "w0 = \<lparr>collections = Map.empty(''main_research_papers'' \<mapsto>
            \<lparr>entries = [(''dummy_entry_1'', [0], ''Artificial intelligence is a branch of computer science.'')]\<rparr>),
          trace = []\<rparr>"

definition env_b :: env where
  "env_b = \<lparr>
     tmp_write = (\<lambda>b. Inr ''/tmp/upload.pdf''),
     convert = (\<lambda>b. Inr ''Some body text.''),
     llm = (\<lambda>n req. Inr ''{}''),
     json_loads = (\<lambda>s. Inr (JObject [])),
     embed_documents = (\<lambda>docs. Inr (map (\<lambda>d. [0]) docs)),
     embed_query = (\<lambda>q. Inr [0]),
     query_nearest = (\<lambda>c q k. Inr \<lparr>documents = [[''Artificial intelligence is a branch of computer science.'']],
                                      distances = [[1.5]]\<rparr>),
     store_fault = (\<lambda>op name. None) \<rparr>"

definition env_near :: env where
  "env_near = env_b\<lparr>
     llm := (\<lambda>n req. Inr (snd (last (messages req)))),
     query_nearest := (\<lambda>c q k. Inr
       \<lparr>documents = [take k (map (\<lambda>(i, e, d). d) (entries c))],
        distances = [take k (map (\<lambda>(i, e, d). 1 / 2) (entries c))]\<rparr>)\<rparr>"

definition env_query_embedding_fails :: env where
  "env_query_embedding_fails =
     env_b\<lparr>embed_query := (\<lambda>q. Inl (OtherError ''CUDA out of memory''))\<rparr>"

definition w_doc :: world where
  "w_doc = \<lparr>collections = Map.empty
            (''main_research_papers'' \<mapsto>
               \<lparr>entries = [(''dummy_entry_1'', [0],
                  ''Artificial intelligence is a branch of computer science.'')]\<rparr>,
             ''doc-1'' \<mapsto>
               \<lparr>entries = [(''chunk_0'', [0], ''First chunk.''),
                           (''chunk_1'', [0], ''Second chunk.''),
                           (''chunk_2'', [0], ''Third chunk.'')]\<rparr>),
          trace = []\<rparr>"

definition pdf0 :: upload where
  "pdf0 = \<lparr>filename = ''paper.pdf'', content = []\<rparr>"




definition env_missing_key :: env where
  "env_missing_key = env_b\<lparr>json_loads := (\<lambda>s. Inr (JObject
     [(''research_objective'', JString ''Measure recall.''), (''methods'', JString ''A survey.''),
      (''main_results'', JString ''Recall improves.'')]))\<rparr>"

definition env_empty_field :: env where
  "env_empty_field = env_b\<lparr>json_loads := (\<lambda>s. Inr (JObject
     [(''research_objective'', JString ''''), (''methods'', JString ''A survey.''),
      (''main_results'', JString ''Recall improves.''),
      (''conclusions'', JString ''It works.'')]))\<rparr>"

section \<open>Properties of the chunker\<close>

lemma chunk_loop_windows:
  "0 < chunk_size - overlap \<Longrightarrow>
   chunk_loop text chunk_size overlap start chunks =
     Some (chunks @ windows text chunk_size (chunk_size - overlap) start)"
proof (induction "nat (int (length text) - start)" arbitrary: start chunks rule: less_induct)
  case less
  show ?case
  proof (cases "start < int (length text)")
    case True
    have "nat (int (length text) - (start + (chunk_size - overlap))) < nat (int (length text) - start)"
      using True less.prems by linarith
    from less.hyps [OF this less.prems]
    show ?thesis using True less.prems
      by (subst chunk_loop.simps, subst windows.simps) simp
  next
    case False
    then show ?thesis
      by (subst chunk_loop.simps, subst windows.simps) simp
  qed
qed

lemma length_windows:
  "0 < step \<Longrightarrow> 0 \<le> start \<Longrightarrow>
   int (length (windows text chunk_size step start)) =
     (if start < int (length text) then (int (length text) - start + step - 1) div step else 0)"
proof (induction "text" chunk_size step start rule: windows.induct)
  case (1 "text" chunk_size step start)
  show ?case
  proof (cases "start < int (length text)")
    case True
    have ih: "int (length (windows text chunk_size step (start + step))) =
      (if start + step < int (length text) then (int (length text) - (start + step) + step - 1) div step else 0)"
      using 1 True by simp
    have "(int (length text) - start + step - 1) div step =
        1 + (if start + step < int (length text) then (int (length text) - (start + step) + step - 1) div step else 0)"
    proof (cases "start + step < int (length text)")
      case True
      have "int (length text) - start + step - 1 = (int (length text) - (start + step) + step - 1) + 1 * step"
        by simp
      then have "(int (length text) - start + step - 1) div step = (int (length text) - (start + step) + step - 1) div step + 1"
        using "1.prems"(1) by (metis div_mult_self1 less_irrefl add.commute)
      then show ?thesis using True by simp
    next
      case False
      have a: "0 \<le> int (length text) - start - 1" using \<open>start < int (length text)\<close> by simp
      have b: "int (length text) - start - 1 < step" using False by simp
      have "int (length text) - start + step - 1 = (int (length text) - start - 1) + 1 * step" by simp
      then have "(int (length text) - start + step - 1) div step = (int (length text) - start - 1) div step + 1"
        using "1.prems"(1) by (metis div_mult_self1 less_irrefl add.commute)
      then show ?thesis using False a b by (simp add: div_pos_pos_trivial)
    qed
    then show ?thesis using True "1.prems" ih
      by (subst windows.simps) simp
  next
    case False
    then show ?thesis by (subst windows.simps) simp
  qed
qed

lemma nth_windows:
  "0 < step \<Longrightarrow> k < length (windows text chunk_size step start) \<Longrightarrow>
   windows text chunk_size step start ! k =
     py_slice text (start + int k * step) (start + int k * step + chunk_size)"
proof (induction "text" chunk_size step start arbitrary: k rule: windows.induct)
  case (1 "text" chunk_size step start)
  show ?case
  proof (cases "start < int (length text)")
    case True
    note w = windows.simps [of "text" chunk_size step start]
    show ?thesis
    proof (cases k)
      case 0
      then show ?thesis using True "1.prems" by (subst w) simp
    next
      case (Suc j)
      have "j < length (windows text chunk_size step (start + step))"
        using "1.prems" True Suc by (subst (asm) w) simp
      from "1.IH" [OF _ "1.prems"(1) this] True "1.prems"(1)
      have "windows text chunk_size step (start + step) ! j =
        py_slice text (start + step + int j * step) (start + step + int j * step + chunk_size)" by simp
      then show ?thesis using True "1.prems" Suc
        by (subst w) (simp add: algebra_simps)
    qed
  next
    case False
    then show ?thesis using "1.prems" by (subst (asm) windows.simps) simp
  qed
qed

lemma py_slice_nonneg:
  "0 \<le> i \<Longrightarrow> i \<le> j \<Longrightarrow> py_slice xs i j = take (nat (j - i)) (drop (nat i) xs)"
proof -
  assume a: "0 \<le> i" "i \<le> j"
  show ?thesis
  proof (cases "i \<le> int (length xs)")
    case True
    have "take (nat (min j (int (length xs)) - i)) (drop (nat i) xs) = take (nat (j - i)) (drop (nat i) xs)"
    proof (cases "j \<le> int (length xs)")
      case True then show ?thesis by (simp add: min_def)
    next
      case False
      then have "length (drop (nat i) xs) \<le> nat (int (length xs) - i)" "length (drop (nat i) xs) \<le> nat (j - i)"
        using a by auto
      then show ?thesis using False by (simp add: min_def)
    qed
    then show ?thesis using a True by (simp add: py_slice_def Let_def min_def)
  next
    case False
    then show ?thesis using a by (simp add: py_slice_def Let_def min_def)
  qed
qed

lemma ceiling_div_int:
  assumes "0 < (s::int)"
  shows "\<lceil>real_of_int L / real_of_int s\<rceil> = (L + s - 1) div s"
proof -
  define n where "n = (L + s - 1) div s"
  have "n * s + (L + s - 1) mod s = L + s - 1" by (simp add: n_def)
  moreover have "0 \<le> (L + s - 1) mod s" "(L + s - 1) mod s < s" using assms by simp_all
  ultimately have lo: "(n - 1) * s < L" and hi: "L \<le> n * s"
    by (simp_all add: algebra_simps)
  have "real_of_int ((n - 1) * s) < real_of_int L" using lo by linarith
  then have a: "real_of_int n - 1 < real_of_int L / real_of_int s"
    using assms by (simp add: pos_less_divide_eq)
  have "real_of_int L \<le> real_of_int (n * s)" using hi by linarith
  then have b: "real_of_int L / real_of_int s \<le> real_of_int n"
    using assms by (simp add: pos_divide_le_eq)
  show ?thesis unfolding n_def [symmetric] using a b by (simp add: ceiling_eq_iff)
qed

lemma chunk_text_by_char_eq:
  assumes "0 \<le> overlap" and "overlap < chunk_size"
  shows "chunk_text_by_char text chunk_size overlap =
     Some (if int (length text) \<le> chunk_size then [text]
           else windows text chunk_size (chunk_size - overlap) 0)"
  using assms by (simp add: chunk_text_by_char_def chunk_loop_windows)

lemma chunker_nonempty:
  assumes "0 \<le> overlap" and "overlap < chunk_size"
  shows "\<exists>chunks. chunk_text_by_char text chunk_size overlap = Some chunks \<and> chunks \<noteq> []"
proof (cases "int (length text) \<le> chunk_size")
  case True
  then show ?thesis using assms by (simp add: chunk_text_by_char_eq)
next
  case False
  then have "windows text chunk_size (chunk_size - overlap) 0 \<noteq> []"
    using assms by (subst windows.simps) auto
  then show ?thesis using False assms by (simp add: chunk_text_by_char_eq)
qed

lemma windows_nth_take_drop:
  assumes "0 \<le> overlap" and "overlap < chunk_size"
    and "k < length (windows text chunk_size (chunk_size - overlap) 0)"
  shows "windows text chunk_size (chunk_size - overlap) 0 ! k =
           take (nat chunk_size) (drop (k * nat (chunk_size - overlap)) text)"
proof -
  have s: "0 < chunk_size - overlap" using assms by simp
  have n: "nat (int k * (chunk_size - overlap)) = k * nat (chunk_size - overlap)"
    using s by (simp add: nat_mult_distrib)
  have "windows text chunk_size (chunk_size - overlap) 0 ! k =
      py_slice text (int k * (chunk_size - overlap)) (int k * (chunk_size - overlap) + chunk_size)"
    using nth_windows [OF s assms(3)] by simp
  also have "\<dots> = take (nat chunk_size) (drop (nat (int k * (chunk_size - overlap))) text)"
    using s assms by (subst py_slice_nonneg) simp_all
  finally show ?thesis using n by simp
qed

text \<open>
  Claim C9. Under the precondition \<open>0 \<le> overlap < chunk_size\<close> the chunker returns for
  every text: the call returns a chunk list, and the loop returns from every window start
  and accumulator, because the start grows by \<open>chunk_size - overlap > 0\<close> in every
  iteration until it reaches the end of the text (\<open>chunk_loop_windows\<close>).
\<close>

theorem chunker_terminates:
  assumes "0 \<le> overlap" and "overlap < chunk_size"
  shows "(\<exists>chunks. chunk_text_by_char text chunk_size overlap = Some chunks) \<and>
         (\<exists>r. chunk_loop text chunk_size overlap start acc = Some r)"
  using assms by (simp add: chunk_text_by_char_def chunk_loop_windows)

theorem chunker_terminates_witness:
  "(\<exists>chunks. chunk_text_by_char ''abcdefghij'' 5 2 = Some chunks) \<and>
   (\<exists>r. chunk_loop ''abcdefghij'' 5 2 3 [''abcde''] = Some r)"
proof -
  have b: "(0::int) \<le> 2" "(2::int) < 5" by simp_all
  show ?thesis using chunker_terminates [OF b] by blast
qed

text \<open>
  Claim C7. For \<open>0 \<le> overlap < chunk_size\<close> the chunker returns a non-empty list of
  chunks; chunk \<open>k\<close> is the window of at most \<open>chunk_size\<close> characters starting at
  \<open>k * (chunk_size - overlap)\<close>; every position of the text lies in the span of some
  chunk; and a text of at most \<open>chunk_size\<close> characters is returned whole as the only
  chunk.
\<close>

theorem chunker_covers:
  assumes "0 \<le> overlap" and "overlap < chunk_size"
  shows "\<exists>chunks. chunk_text_by_char text chunk_size overlap = Some chunks \<and> chunks \<noteq> [] \<and>
     (\<forall>k < length chunks.
        chunks ! k = take (nat chunk_size) (drop (k * nat (chunk_size - overlap)) text) \<and>
        int (length (chunks ! k)) \<le> chunk_size) \<and>
     (\<forall>i < length text. \<exists>k < length chunks.
        k * nat (chunk_size - overlap) \<le> i \<and>
        i < k * nat (chunk_size - overlap) + length (chunks ! k)) \<and>
     (int (length text) \<le> chunk_size \<longrightarrow> chunks = [text])"
proof (cases "int (length text) \<le> chunk_size")
  case True
  then have "length text \<le> nat chunk_size" by simp
  then show ?thesis using True assms by (simp add: chunk_text_by_char_eq)
next
  case False
  define step where "step = nat (chunk_size - overlap)"
  define ws where "ws = windows text chunk_size (chunk_size - overlap) 0"
  have s: "0 < chunk_size - overlap" using assms by simp
  have step_pos: "0 < step" and step_le: "step \<le> nat chunk_size"
    using assms by (simp_all add: step_def)
  have eq: "chunk_text_by_char text chunk_size overlap = Some ws"
    using False assms by (simp add: chunk_text_by_char_eq ws_def)
  have len: "int (length ws) = (int (length text) + (chunk_size - overlap) - 1) div (chunk_size - overlap)"
    using length_windows [OF s, of 0 "text" chunk_size] False assms by (simp add: ws_def)
  have nth: "ws ! k = take (nat chunk_size) (drop (k * step) text)" if "k < length ws" for k
    using windows_nth_take_drop [OF assms] that by (simp add: ws_def step_def)
  have count: "i div step < length ws" if "i < length text" for i
  proof -
    have "int (length ws) = \<lceil>real_of_int (int (length text)) / real_of_int (chunk_size - overlap)\<rceil>"
      using len ceiling_div_int [OF s, of "int (length text)"] by simp
    then have "real (length text) / real_of_int (chunk_size - overlap) \<le> real (length ws)"
      by (metis le_of_int_ceiling of_int_of_nat_eq)
    then have "real (length text) \<le> real (length ws) * real_of_int (chunk_size - overlap)"
      using s by (simp add: pos_divide_le_eq)
    then have "real (length text) \<le> real (length ws * step)"
      using s by (simp add: step_def)
    then have "length text \<le> length ws * step" by linarith
    then have "i < length ws * step" using that by simp
    then show ?thesis using step_pos by (simp add: less_mult_imp_div_less)
  qed
  have ne: "ws \<noteq> []" using count [of 0] False assms by (cases "text") auto
  have bound: "int (length (ws ! k)) \<le> chunk_size" if "k < length ws" for k
    using nth [OF that] assms by simp
  have cover: "\<exists>k < length ws. k * step \<le> i \<and> i < k * step + length (ws ! k)"
    if "i < length text" for i
  proof -
    let ?k = "i div step"
    have k: "?k < length ws" using count [OF that] .
    have lo: "?k * step \<le> i" by simp
    have "i - ?k * step < step" using step_pos
      by (metis minus_div_mult_eq_mod mod_less_divisor)
    then have "i < ?k * step + min (nat chunk_size) (length text - ?k * step)"
      using that step_le lo by simp
    then have "i < ?k * step + length (ws ! ?k)"
      using nth [OF k] by (simp add: min.commute)
    then show ?thesis using k lo by blast
  qed
  show ?thesis
    using eq ne nth bound cover False unfolding step_def by auto
qed

theorem chunker_covers_witness:
  "chunk_text_by_char ''abcdefghij'' 5 2 = Some [''abcde'', ''defgh'', ''ghij'', ''j''] \<and>
   (\<exists>chunks. chunk_text_by_char ''abcdefghij'' 5 2 = Some chunks \<and> chunks \<noteq> [] \<and>
     (\<forall>k < length chunks.
        chunks ! k = take (nat 5) (drop (k * nat (5 - 2)) ''abcdefghij'') \<and>
        int (length (chunks ! k)) \<le> 5) \<and>
     (\<forall>i < length ''abcdefghij''. \<exists>k < length chunks.
        k * nat (5 - 2) \<le> i \<and> i < k * nat (5 - 2) + length (chunks ! k)))"
proof -
  have a: "chunk_text_by_char ''abcdefghij'' 5 2 = Some [''abcde'', ''defgh'', ''ghij'', ''j'']"
    by (simp add: chunk_text_by_char_def chunk_loop.simps py_slice_def)
  have b: "(0::int) \<le> 2" "(2::int) < 5" by simp_all
  show ?thesis using a chunker_covers [OF b, of "''abcdefghij''"] by blast
qed

text \<open>
  Claim C2, as amended. For \<open>0 \<le> overlap < chunk_size\<close> the chunker returns exactly one
  chunk when \<open>len(text) \<le> chunk_size\<close>, and otherwise exactly
  \<open>ceil(len(text) / (chunk_size - overlap))\<close> chunks: one per window start
  \<open>0, step, 2 step, ...\<close> below \<open>len(text)\<close>.
\<close>

theorem chunk_count:
  assumes "0 \<le> overlap" and "overlap < chunk_size"
  shows "map_option length (chunk_text_by_char text chunk_size overlap) =
     Some (if int (length text) \<le> chunk_size then 1
           else nat \<lceil>real (length text) / real_of_int (chunk_size - overlap)\<rceil>)"
proof (cases "int (length text) \<le> chunk_size")
  case True
  then show ?thesis using assms by (simp add: chunk_text_by_char_eq)
next
  case False
  have s: "0 < chunk_size - overlap" using assms by simp
  have "int (length (windows text chunk_size (chunk_size - overlap) 0)) =
      (int (length text) + (chunk_size - overlap) - 1) div (chunk_size - overlap)"
    using length_windows [OF s, of 0 "text" chunk_size] False assms by simp
  also have "\<dots> = \<lceil>real_of_int (int (length text)) / real_of_int (chunk_size - overlap)\<rceil>"
    using ceiling_div_int [OF s, of "int (length text)"] by simp
  finally have "length (windows text chunk_size (chunk_size - overlap) 0) =
      nat \<lceil>real (length text) / real_of_int (chunk_size - overlap)\<rceil>"
    by simp
  then show ?thesis using False assms by (simp add: chunk_text_by_char_eq)
qed

theorem chunk_count_witness:
  "map_option length (chunk_text_by_char ''abcdefghij'' 5 2) = Some 4"
proof -
  have "\<lceil>real (length ''abcdefghij'') / real_of_int (5 - 2)\<rceil> = 4"
    by (simp add: ceiling_eq_iff)
  then show ?thesis using chunk_count [of 2 5 "''abcdefghij''"] by simp
qed

text \<open>
  Claim C2 as stated fails: the ten-character text with \<open>chunk_size = 5\<close> and
  \<open>overlap = 2\<close> is cut at the starts 0, 3, 6 and 9, four chunks, while
  \<open>ceil((10 - 2) / (5 - 2)) = 3\<close>.
\<close>

theorem chunk_count_counterexample:
  "\<not> map_option length (chunk_text_by_char ''abcdefghij'' 5 2) =
      Some (nat \<lceil>(real (length ''abcdefghij'') - 2) / (5 - 2)\<rceil>)"
proof -
  have "\<lceil>(real (length ''abcdefghij'') - 2) / (5 - 2)\<rceil> = 3"
    by (simp add: ceiling_eq_iff)
  moreover have "chunk_text_by_char ''abcdefghij'' 5 2 = Some [''abcde'', ''defgh'', ''ghij'', ''j'']"
    by (simp add: chunk_text_by_char_def chunk_loop.simps py_slice_def)
  ultimately show ?thesis by simp
qed

section \<open>The code against the notions of the specification\<close>

subsection \<open>Traces, joining, templates and requests\<close>

lemma collections_emit [simp]: "collections (emit ev w) = collections w"
  by (simp add: emit_def)

lemma trace_emit [simp]: "trace (emit ev w) = trace w @ [ev]"
  by (simp add: emit_def)

lemma llm_calls_append [simp]: "llm_calls (xs @ ys) = llm_calls xs @ llm_calls ys"
  by (induction xs rule: llm_calls.induct) simp_all

lemma deleted_append [simp]: "deleted (xs @ ys) = deleted xs @ deleted ys"
  by (induction xs rule: deleted.induct) simp_all

lemma llm_calls_EvLLM [simp]: "llm_calls (map EvLLM reqs) = reqs"
  by (induction reqs) simp_all

lemma deleted_EvLLM [simp]: "deleted (map EvLLM reqs) = []"
  by (induction reqs) simp_all

lemma py_join_concat:
  "py_join sep texts = (case texts of [] \<Rightarrow> [] | t # ts \<Rightarrow> t @ concat (map ((@) sep) ts))"
  by (induction sep texts rule: py_join.induct) simp_all

lemma py_join_joined: "py_join [nl, nl] texts = joined texts"
  by (simp add: joined_def py_join_concat)

lemma PROMPT_TEMPLATES_get:
  "(case PROMPT_TEMPLATES language of Some p \<Rightarrow> p | None \<Rightarrow> prompts_en) =
     templates_for language"
  by (simp add: PROMPT_TEMPLATES_def templates_for_def)

lemma NO_CONTEXT_MESSAGES_get:
  "(case NO_CONTEXT_MESSAGES language of Some m \<Rightarrow> m | None \<Rightarrow> no_context_en) =
     no_answer_message language"
  by (simp add: NO_CONTEXT_MESSAGES_def no_answer_message_def)

lemma effective_language:
  "PROMPT_TEMPLATES (if PROMPT_TEMPLATES language = None then ''en'' else language) =
     Some (templates_for language)"
  by (simp add: PROMPT_TEMPLATES_def templates_for_def)

lemma map_request_eq: "map_request (templates_for language) chunk = map_request_for language chunk"
  by (simp add: map_request_def map_request_for_def templates_for_def prompts_en_def
      prompts_id_def)

lemma reduce_request_eq:
  "reduce_request (templates_for language) (py_join [nl, nl] summaries) =
     reduce_request_for language summaries"
  by (simp add: reduce_request_def reduce_request_for_def templates_for_def prompts_en_def
      prompts_id_def py_join_joined)

lemma qa_chat_request_for:
  "qa_chat_request (templates_for language) context_text question_text =
     qa_request_for language context_text question_text"
  by (simp add: qa_chat_request_def qa_request_for_def templates_for_def prompts_en_def
      prompts_id_def)

subsection \<open>The summary\<close>

lemma map_phase_eq:
  "map_phase env (templates_for language) chunks acc w =
     (case first_raised (replies env (length (llm_calls (trace w)))
             (map (map_request_for language) chunks)) of
        Some e \<Rightarrow> Inl e
      | None \<Rightarrow> Inr (acc @ answered (replies env (length (llm_calls (trace w)))
                                    (map (map_request_for language) chunks))),
      w\<lparr>trace := trace w @ map EvLLM
           (take (Suc (length (answered (replies env (length (llm_calls (trace w)))
                                          (map (map_request_for language) chunks)))))
              (map (map_request_for language) chunks))\<rparr>)"
proof (induction chunks arbitrary: acc w)
  case Nil
  show ?case by simp
next
  case (Cons c cs)
  show ?case
  proof (cases "llm env (length (llm_calls (trace w))) (map_request_for language c)")
    case (Inl e)
    then show ?thesis
      by (simp add: create_chat_completion_def map_request_eq emit_def)
  next
    case (Inr summary)
    then show ?thesis
      by (simp add: create_chat_completion_def map_request_eq Cons.IH emit_def
          split: option.splits)
  qed
qed

lemma length_answered:
  "first_raised rs = None \<Longrightarrow> length (answered rs) = length rs"
  by (induction rs rule: first_raised.induct) simp_all

lemma length_replies [simp]: "length (replies env n reqs) = length reqs"
  by (induction reqs arbitrary: n) simp_all

lemma chunker_summary: "chunk_text_by_char t 3000 200 = Some (summary_chunks t)"
  using chunk_text_by_char_eq [of 200 3000 t] by (simp add: summary_chunks_def)

lemma chunker_retrieval: "chunk_text_by_char t 1000 150 = Some (retrieval_chunks t)"
  using chunk_text_by_char_eq [of 150 1000 t] by (simp add: retrieval_chunks_def)

lemma retrieval_chunks_nonempty: "retrieval_chunks t \<noteq> []"
  using chunker_nonempty [of 150 1000 t] by (simp add: chunker_retrieval)

lemma summarize_eq:
  assumes "PROMPT_TEMPLATES lang' = Some (templates_for language)"
  shows "summarize env lang' t w =
     Some (case summary_reply env language (length (llm_calls (trace w))) t of
             Inl e \<Rightarrow> Inl e
           | Inr out \<Rightarrow> parse_summary env out,
           w\<lparr>trace := trace w @
                map EvLLM (summary_requests env language (length (llm_calls (trace w))) t)\<rparr>)"
proof -
  define n where "n = length (llm_calls (trace w))"
  define reqs where "reqs = map (map_request_for language) (summary_chunks t)"
  define rs where "rs = replies env n reqs"
  have m: "map_phase env (templates_for language) (summary_chunks t) [] w =
      (case first_raised rs of Some e \<Rightarrow> Inl e | None \<Rightarrow> Inr (answered rs),
       w\<lparr>trace := trace w @ map EvLLM (take (Suc (length (answered rs))) reqs)\<rparr>)"
    by (simp add: map_phase_eq rs_def reqs_def n_def cong: option.case_cong)
  have s: "summarize env lang' t w =
      Some (bind_io (map_phase env (templates_for language) (summary_chunks t) [] w)
        (\<lambda>chunk_summaries w1.
           bind_io (create_chat_completion env
                      (reduce_request (templates_for language) (py_join [nl, nl] chunk_summaries))
                      w1)
             (\<lambda>llm_output_text w2. (parse_summary env llm_output_text, w2))))"
    by (simp add: summarize_def chunker_summary assms)
  show ?thesis
  proof (cases "first_raised rs")
    case (Some e)
    then show ?thesis
      unfolding s m
      by (simp add: bind_io_def summary_reply_def summary_requests_def Let_def
          rs_def [symmetric] reqs_def [symmetric] n_def [symmetric])
  next
    case None
    have l: "length (answered rs) = length reqs"
      using length_answered [OF None] by (simp add: rs_def)
    show ?thesis
      unfolding s m
      by (cases "llm env (n + length reqs) (reduce_request_for language (answered rs))")
         (simp_all add: bind_io_def summary_reply_def summary_requests_def Let_def
          rs_def [symmetric] reqs_def [symmetric] n_def [symmetric] None l
          create_chat_completion_def reduce_request_eq emit_def)
  qed
qed

lemma parse_summary_error:
  "parse_summary env out = Inl e \<longleftrightarrow> parse_error env out = Some e"
proof (cases "json_loads env out")
  case (Inl x)
  then show ?thesis by (cases x) (auto simp: parse_summary_def parse_error_def)
next
  case (Inr js)
  then show ?thesis by (cases js) (auto simp: parse_summary_def parse_error_def)
qed

lemma parse_summary_fields:
  "parse_summary env out = Inr fs \<longleftrightarrow>
     (\<exists>d. json_loads env out = Inr (JObject d) \<and>
        fs = [(''Tujuan Penelitian'',
                 case map_of d ''research_objective'' of
                   None \<Rightarrow> JString ''Tidak ditemukan.'' | Some v \<Rightarrow> v),
              (''Metode'',
                 case map_of d ''methods'' of
                   None \<Rightarrow> JString ''Tidak ditemukan.'' | Some v \<Rightarrow> v),
              (''Hasil Utama'',
                 case map_of d ''main_results'' of
                   None \<Rightarrow> JString ''Tidak ditemukan.'' | Some v \<Rightarrow> v),
              (''Kesimpulan'',
                 case map_of d ''conclusions'' of
                   None \<Rightarrow> JString ''Tidak ditemukan.'' | Some v \<Rightarrow> v)])"
proof (cases "json_loads env out")
  case (Inl x)
  then show ?thesis by (cases x) (auto simp: parse_summary_def)
next
  case (Inr js)
  then show ?thesis by (cases js) (auto simp: parse_summary_def dict_get_def)
qed

lemma parse_error_None:
  "parse_error env out = None \<longleftrightarrow> (\<exists>fs. parse_summary env out = Inr fs)"
  using parse_summary_error [of env out]
  by (cases "parse_summary env out") (auto simp del: not_None_eq)

subsection \<open>Storing, the handler and the whole ingestion\<close>

lemma vectorize_spec:
  "\<exists>r w'. vectorize env name t w = Some (r, w') \<and>
     r = (case store_error env w name (retrieval_chunks t) of
            Some e \<Rightarrow> Inl e | None \<Rightarrow> Inr ()) \<and>
     llm_calls (trace w') = llm_calls (trace w) \<and>
     deleted (trace w') = deleted (trace w) \<and>
     (\<forall>n. n \<noteq> name \<longrightarrow> collections w' n = collections w n) \<and>
     (r = Inr () \<longrightarrow> (\<exists>c. collections w' name = Some c \<and> entries c \<noteq> []))"
  using retrieval_chunks_nonempty [of t]
  by (auto simp: vectorize_def chunker_retrieval bind_io_def create_collection_def
      collection_add_def store_error_def Let_def split: sum.splits option.splits)

lemma rollback_spec:
  "fst (rollback env name e w) =
     Inl (case store_fault env OpDelete name of
            None \<Rightarrow> internal_server_error e
          | Some e' \<Rightarrow> if is_Exception e' then internal_server_error e else e')"
  "llm_calls (trace (snd (rollback env name e w))) = llm_calls (trace w)"
  "deleted (trace (snd (rollback env name e w))) = deleted (trace w) @ [name]"
  "n \<noteq> name \<Longrightarrow> collections (snd (rollback env name e w)) n = collections w n"
  "store_fault env OpDelete name = None \<Longrightarrow> collections (snd (rollback env name e w)) name = None"
  by (auto simp: rollback_def delete_collection_def except_Exception_def Let_def
      split: option.splits)

lemma store_error_collections:
  "collections w' name = collections w name \<Longrightarrow>
   store_error env w' name chunks = store_error env w name chunks"
  by (simp add: store_error_def cong: sum.case_cong option.case_cong)

lemma ingest_spec:
  assumes p: "PROMPT_TEMPLATES lang' = Some (templates_for language)"
    and tw: "tmp_write env (content file) = Inr path"
    and l1: "llm_calls (trace w1) = llm_calls (trace w)"
    and c1: "collections w1 = collections w"
    and d1: "deleted (trace w1) = deleted (trace w)"
  shows "\<exists>m w2. ingest env (str_uuid u) file lang' w1 = Some (m, w2) \<and>
     (case first_error env u file language w of
        Some e \<Rightarrow> m = Inl e
      | None \<Rightarrow> (\<exists>resp. m = Inr resp)) \<and>
     llm_calls (trace w2) =
       llm_calls (trace w) @ model_requests env file language (length (llm_calls (trace w))) \<and>
     deleted (trace w2) = deleted (trace w) \<and>
     (\<forall>n. n \<noteq> str_uuid u \<longrightarrow> collections w2 n = collections w n) \<and>
     (first_error env u file language w = None \<longrightarrow>
        (\<exists>c. collections w2 (str_uuid u) = Some c \<and> entries c \<noteq> [])) \<and>
     (\<forall>resp. m = Inr resp \<longrightarrow>
        (\<exists>markdown out d.
           convert env (content file) = Inr markdown \<and>
           summary_reply env language (length (llm_calls (trace w))) (clean_text markdown) =
             Inr out \<and>
           json_loads env out = Inr (JObject d) \<and>
           resp = SummaryResponse (filename file)
             [(''Tujuan Penelitian'',
                 case map_of d ''research_objective'' of
                   None \<Rightarrow> JString ''Tidak ditemukan.'' | Some v \<Rightarrow> v),
              (''Metode'',
                 case map_of d ''methods'' of
                   None \<Rightarrow> JString ''Tidak ditemukan.'' | Some v \<Rightarrow> v),
              (''Hasil Utama'',
                 case map_of d ''main_results'' of
                   None \<Rightarrow> JString ''Tidak ditemukan.'' | Some v \<Rightarrow> v),
              (''Kesimpulan'',
                 case map_of d ''conclusions'' of
                   None \<Rightarrow> JString ''Tidak ditemukan.'' | Some v \<Rightarrow> v)]
             (str_uuid u)))"
proof (cases "convert env (content file)")
  case (Inl e)
  then show ?thesis using tw l1 c1 d1
    by (simp add: ingest_def first_error_def model_requests_def)
next
  case (Inr markdown)
  define t where "t = clean_text markdown"
  define n where "n = length (llm_calls (trace w))"
  define wc where "wc = emit EvConvert w1"
  have lc: "length (llm_calls (trace wc)) = n" by (simp add: wc_def l1 n_def)
  have sp: "(t = [] \<or> py_str_isspace t) = (t = [] \<or> list_all py_isspace t)"
    by (auto simp: py_str_isspace_def)
  show ?thesis
  proof (cases "t = [] \<or> list_all py_isspace t")
    case True
    have "ingest env (str_uuid u) file lang' w1 =
        Some (Inl (HTTPException 500 ''Failed to extract meaningful text from PDF.''), wc)"
      using True Inr sp by (simp add: ingest_def Let_def t_def [symmetric] wc_def)
    moreover have "first_error env u file language w =
        Some (HTTPException 500 ''Failed to extract meaningful text from PDF.'')"
      using True Inr tw by (simp add: first_error_def t_def [symmetric])
    moreover have "model_requests env file language n = []"
      using True Inr tw by (simp add: model_requests_def t_def [symmetric])
    ultimately show ?thesis using l1 c1 d1 by (simp add: wc_def n_def [symmetric])
  next
    case False
    define reqs where "reqs = summary_requests env language n t"
    define ws where "ws = wc\<lparr>trace := trace wc @ map EvLLM reqs\<rparr>"
    have s: "summarize env lang' t wc =
        Some (case summary_reply env language n t of
                Inl e \<Rightarrow> Inl e
              | Inr out \<Rightarrow> parse_summary env out, ws)"
      using summarize_eq [OF p, of env t wc] by (simp add: lc ws_def reqs_def)
    have ls: "llm_calls (trace ws) = llm_calls (trace w) @ reqs"
      by (simp add: ws_def wc_def l1)
    have ds: "deleted (trace ws) = deleted (trace w)"
      by (simp add: ws_def wc_def d1)
    have cs: "collections ws = collections w"
      by (simp add: ws_def wc_def c1)
    have mr: "model_requests env file language n = reqs"
      using False Inr tw by (simp add: model_requests_def t_def [symmetric] reqs_def)
    have fe: "first_error env u file language w =
        (case summary_reply env language n t of
           Inl e \<Rightarrow> Some e
         | Inr out \<Rightarrow>
             (case parse_error env out of
                Some e \<Rightarrow> Some e
              | None \<Rightarrow> store_error env w (str_uuid u) (retrieval_chunks t)))"
      using False Inr tw
      by (simp add: first_error_def t_def [symmetric] n_def cong: sum.case_cong option.case_cong)
    have i: "ingest env (str_uuid u) file lang' w1 =
        (case summarize env lang' t wc of
           None \<Rightarrow> None
         | Some (Inl e, w2) \<Rightarrow> Some (Inl e, w2)
         | Some (Inr final_summary, w2) \<Rightarrow>
             (case vectorize env (str_uuid u) t w2 of
                None \<Rightarrow> None
              | Some (Inl e, w3) \<Rightarrow> Some (Inl e, w3)
              | Some (Inr u', w3) \<Rightarrow>
                  Some (Inr (SummaryResponse (filename file) final_summary (str_uuid u)), w3)))"
      using False Inr sp by (simp add: ingest_def Let_def t_def [symmetric] wc_def)
    show ?thesis
    proof (cases "summary_reply env language n t")
      case (Inl e)
      have "ingest env (str_uuid u) file lang' w1 = Some (Inl e, ws)"
        unfolding i s using Inl by simp
      moreover have "first_error env u file language w = Some e"
        unfolding fe using Inl by simp
      ultimately show ?thesis using ls ds cs mr by (simp add: n_def [symmetric])
    next
      case out: (Inr out)
      show ?thesis
      proof (cases "parse_summary env out")
        case (Inl e)
        have "ingest env (str_uuid u) file lang' w1 = Some (Inl e, ws)"
          unfolding i s using out Inl by simp
        moreover have "first_error env u file language w = Some e"
          unfolding fe using out Inl by (simp add: parse_summary_error)
        ultimately show ?thesis using ls ds cs mr by (simp add: n_def [symmetric])
      next
        case fs: (Inr fs)
        obtain d where d: "json_loads env out = Inr (JObject d)"
          "fs = [(''Tujuan Penelitian'',
                 case map_of d ''research_objective'' of
                   None \<Rightarrow> JString ''Tidak ditemukan.'' | Some v \<Rightarrow> v),
              (''Metode'',
                 case map_of d ''methods'' of
                   None \<Rightarrow> JString ''Tidak ditemukan.'' | Some v \<Rightarrow> v),
              (''Hasil Utama'',
                 case map_of d ''main_results'' of
                   None \<Rightarrow> JString ''Tidak ditemukan.'' | Some v \<Rightarrow> v),
              (''Kesimpulan'',
                 case map_of d ''conclusions'' of
                   None \<Rightarrow> JString ''Tidak ditemukan.'' | Some v \<Rightarrow> v)]"
          using fs parse_summary_fields [of env out fs] by blast
        have pe: "parse_error env out = None"
          using fs parse_error_None [of env out] by simp
        obtain r3 w3 where v: "vectorize env (str_uuid u) t ws = Some (r3, w3)"
          and r3: "r3 = (case store_error env w (str_uuid u) (retrieval_chunks t) of
                          Some e \<Rightarrow> Inl e | None \<Rightarrow> Inr ())"
          and l3: "llm_calls (trace w3) = llm_calls (trace ws)"
          and d3: "deleted (trace w3) = deleted (trace ws)"
          and o3: "\<forall>n. n \<noteq> str_uuid u \<longrightarrow> collections w3 n = collections ws n"
          and c3: "r3 = Inr () \<longrightarrow> (\<exists>c. collections w3 (str_uuid u) = Some c \<and> entries c \<noteq> [])"
          using vectorize_spec [of env "str_uuid u" t ws]
            store_error_collections [of ws "str_uuid u" w env "retrieval_chunks t"] cs
          by auto
        have fe': "first_error env u file language w =
            store_error env w (str_uuid u) (retrieval_chunks t)"
          unfolding fe using out pe by simp
        show ?thesis
        proof (cases "store_error env w (str_uuid u) (retrieval_chunks t)")
          case (Some e)
          have "ingest env (str_uuid u) file lang' w1 = Some (Inl e, w3)"
            unfolding i s using out fs v r3 Some by simp
          then show ?thesis using fe' Some l3 d3 o3 ls ds cs mr
            by (simp add: n_def [symmetric])
        next
          case None
          have "ingest env (str_uuid u) file lang' w1 =
              Some (Inr (SummaryResponse (filename file) fs (str_uuid u)), w3)"
            unfolding i s using out fs v r3 None by simp
          moreover have "\<exists>c. collections w3 (str_uuid u) = Some c \<and> entries c \<noteq> []"
            using c3 r3 None by simp
          ultimately show ?thesis
            using fe' None l3 d3 o3 ls ds cs mr Inr out d
            by (simp add: n_def [symmetric] t_def [symmetric])
        qed
      qed
    qed
  qed
qed

lemma summarize_pdf_unfold:
  assumes "endswith (filename file) ''.pdf''"
    and "w1 = emit EvTempWrite w"
    and "language' = (if PROMPT_TEMPLATES language = None then ''en'' else language)"
  shows "summarize_pdf env u file language w =
     (case tmp_write env (content file) of
        Inl e \<Rightarrow> Some (except_Exception (rollback env (str_uuid u)) (Inl e, w1))
      | Inr tmp_pdf_path \<Rightarrow>
          (case ingest env (str_uuid u) file language' w1 of
             None \<Rightarrow> None
           | Some m \<Rightarrow>
               (case except_Exception (rollback env (str_uuid u)) m of
                  (r, w3) \<Rightarrow> Some (r, emit (EvTempRemove tmp_pdf_path) w3))))"
  unfolding summarize_pdf_def Let_def assms(2,3) using assms(1)
  by (cases "tmp_write env (content file)") simp_all

lemma handler_spec:
  "\<exists>r w'. except_Exception (rollback env name) (Inl e, w) = (r, w') \<and>
     llm_calls (trace w') = llm_calls (trace w) \<and>
     (\<forall>n. n \<noteq> name \<longrightarrow> collections w' n = collections w n) \<and>
     (if is_Exception e
      then deleted (trace w') = deleted (trace w) @ [name] \<and>
           (case store_fault env OpDelete name of
              None \<Rightarrow>
                r = Inl (HTTPException 500 (''Internal server error: '' @ str_exn e)) \<and>
                collections w' name = None
            | Some e' \<Rightarrow>
                r = Inl (if is_Exception e'
                         then HTTPException 500 (''Internal server error: '' @ str_exn e)
                         else e'))
      else r = Inl e \<and> deleted (trace w') = deleted (trace w) \<and> w' = w)"
proof (cases "is_Exception e")
  case True
  define r where "r = fst (rollback env name e w)"
  define w' where "w' = snd (rollback env name e w)"
  have eq: "except_Exception (rollback env name) (Inl e, w) = (r, w')"
    using True by (simp add: except_Exception_def r_def w'_def)
  have "llm_calls (trace w') = llm_calls (trace w)"
    by (simp add: w'_def rollback_spec(2))
  moreover have "\<forall>n. n \<noteq> name \<longrightarrow> collections w' n = collections w n"
    by (simp add: w'_def rollback_spec(4))
  moreover have "deleted (trace w') = deleted (trace w) @ [name]"
    by (simp add: w'_def rollback_spec(3))
  moreover have "case store_fault env OpDelete name of
              None \<Rightarrow>
                r = Inl (HTTPException 500 (''Internal server error: '' @ str_exn e)) \<and>
                collections w' name = None
            | Some e' \<Rightarrow>
                r = Inl (if is_Exception e'
                         then HTTPException 500 (''Internal server error: '' @ str_exn e)
                         else e')"
    by (cases "store_fault env OpDelete name")
       (simp_all add: r_def w'_def rollback_spec(1) rollback_spec(5) internal_server_error_def)
  ultimately show ?thesis using eq True by simp
next
  case False
  then show ?thesis by (simp add: except_Exception_def)
qed

lemma summarize_pdf_spec:
  assumes "endswith (filename file) ''.pdf''"
  shows "\<exists>r w'. summarize_pdf env u file language w = Some (r, w') \<and>
     llm_calls (trace w') =
       llm_calls (trace w) @ model_requests env file language (length (llm_calls (trace w))) \<and>
     (\<forall>n. n \<noteq> str_uuid u \<longrightarrow> collections w' n = collections w n) \<and>
     (case first_error env u file language w of
        None \<Rightarrow>
          (\<exists>resp. r = Inr resp) \<and> deleted (trace w') = deleted (trace w) \<and>
          (\<exists>c. collections w' (str_uuid u) = Some c \<and> entries c \<noteq> [])
      | Some e \<Rightarrow>
          if is_Exception e
          then deleted (trace w') = deleted (trace w) @ [str_uuid u] \<and>
               (case store_fault env OpDelete (str_uuid u) of
                  None \<Rightarrow>
                    r = Inl (HTTPException 500 (''Internal server error: '' @ str_exn e)) \<and>
                    collections w' (str_uuid u) = None
                | Some e' \<Rightarrow>
                    r = Inl (if is_Exception e'
                             then HTTPException 500 (''Internal server error: '' @ str_exn e)
                             else e'))
          else r = Inl e \<and> deleted (trace w') = deleted (trace w)) \<and>
     (\<forall>resp. r = Inr resp \<longrightarrow>
        (\<exists>markdown out d.
           convert env (content file) = Inr markdown \<and>
           summary_reply env language (length (llm_calls (trace w))) (clean_text markdown) =
             Inr out \<and>
           json_loads env out = Inr (JObject d) \<and>
           resp = SummaryResponse (filename file)
             [(''Tujuan Penelitian'',
                 case map_of d ''research_objective'' of
                   None \<Rightarrow> JString ''Tidak ditemukan.'' | Some v \<Rightarrow> v),
              (''Metode'',
                 case map_of d ''methods'' of
                   None \<Rightarrow> JString ''Tidak ditemukan.'' | Some v \<Rightarrow> v),
              (''Hasil Utama'',
                 case map_of d ''main_results'' of
                   None \<Rightarrow> JString ''Tidak ditemukan.'' | Some v \<Rightarrow> v),
              (''Kesimpulan'',
                 case map_of d ''conclusions'' of
                   None \<Rightarrow> JString ''Tidak ditemukan.'' | Some v \<Rightarrow> v)]
             (str_uuid u)))"
    (is "\<exists>r w'. _ = Some (r, w') \<and> ?L w' \<and> ?O w' \<and> ?C r w' \<and> ?R r")
proof -
  define language' where
    "language' = (if PROMPT_TEMPLATES language = None then ''en'' else language)"
  define w1 where "w1 = emit EvTempWrite w"
  have l1: "llm_calls (trace w1) = llm_calls (trace w)"
    and c1: "collections w1 = collections w"
    and d1: "deleted (trace w1) = deleted (trace w)"
    by (simp_all add: w1_def)
  have p: "PROMPT_TEMPLATES language' = Some (templates_for language)"
    unfolding language'_def by (rule effective_language)
  note unf = summarize_pdf_unfold [OF assms w1_def language'_def, of env u]
  show ?thesis
  proof (cases "tmp_write env (content file)")
    case (Inl e)
    obtain r w' where h: "except_Exception (rollback env (str_uuid u)) (Inl e, w1) = (r, w')"
      and hl: "llm_calls (trace w') = llm_calls (trace w1)"
      and ho: "\<forall>n. n \<noteq> str_uuid u \<longrightarrow> collections w' n = collections w1 n"
      and hc: "if is_Exception e
         then deleted (trace w') = deleted (trace w1) @ [str_uuid u] \<and>
              (case store_fault env OpDelete (str_uuid u) of
                 None \<Rightarrow>
                   r = Inl (HTTPException 500 (''Internal server error: '' @ str_exn e)) \<and>
                   collections w' (str_uuid u) = None
               | Some e' \<Rightarrow>
                   r = Inl (if is_Exception e'
                            then HTTPException 500 (''Internal server error: '' @ str_exn e)
                            else e'))
         else r = Inl e \<and> deleted (trace w') = deleted (trace w1) \<and> w' = w1"
      using handler_spec [of env "str_uuid u" e w1] by blast
    have eq: "summarize_pdf env u file language w = Some (r, w')"
      using unf Inl h by simp
    have fe: "first_error env u file language w = Some e"
      using Inl by (simp add: first_error_def)
    have mr: "model_requests env file language (length (llm_calls (trace w))) = []"
      using Inl by (simp add: model_requests_def)
    have nr: "r \<noteq> Inr resp" for resp
      using hc by (cases "is_Exception e"; cases "store_fault env OpDelete (str_uuid u)") auto
    have L: "?L w'" using hl l1 mr by simp
    have O: "?O w'" using ho c1 by simp
    have C: "?C r w'"
      unfolding fe using hc d1 by (cases "is_Exception e") simp_all
    have R: "?R r" using nr by simp
    from eq L O C R show ?thesis by blast
  next
    case (Inr tmp_pdf_path)
    obtain m w2 where i: "ingest env (str_uuid u) file language' w1 = Some (m, w2)"
      and im: "case first_error env u file language w of
                 Some e \<Rightarrow> m = Inl e
               | None \<Rightarrow> (\<exists>resp. m = Inr resp)"
      and il: "?L w2"
      and id: "deleted (trace w2) = deleted (trace w)"
      and io: "?O w2"
      and ic: "first_error env u file language w = None \<longrightarrow>
         (\<exists>c. collections w2 (str_uuid u) = Some c \<and> entries c \<noteq> [])"
      and ir: "?R m"
      using ingest_spec [OF p Inr l1 c1 d1, of u] by (elim exE conjE) (rule that)
    show ?thesis
    proof (cases "first_error env u file language w")
      case None
      obtain resp where m: "m = Inr resp" using im None by auto
      define w' where "w' = emit (EvTempRemove tmp_pdf_path) w2"
      have eq: "summarize_pdf env u file language w = Some (m, w')"
        using unf Inr i m by (simp add: except_Exception_def w'_def)
      have L: "?L w'" using il by (simp add: w'_def)
      have O: "?O w'" using io by (simp add: w'_def)
      have C: "?C m w'"
        unfolding None using m id ic None by (simp add: w'_def)
      from eq L O C ir show ?thesis by blast
    next
      case (Some e)
      have m: "m = Inl e" using im Some by simp
      obtain r w3 where h: "except_Exception (rollback env (str_uuid u)) (Inl e, w2) = (r, w3)"
        and hl: "llm_calls (trace w3) = llm_calls (trace w2)"
        and ho: "\<forall>n. n \<noteq> str_uuid u \<longrightarrow> collections w3 n = collections w2 n"
        and hc: "if is_Exception e
           then deleted (trace w3) = deleted (trace w2) @ [str_uuid u] \<and>
                (case store_fault env OpDelete (str_uuid u) of
                   None \<Rightarrow>
                     r = Inl (HTTPException 500 (''Internal server error: '' @ str_exn e)) \<and>
                     collections w3 (str_uuid u) = None
                 | Some e' \<Rightarrow>
                     r = Inl (if is_Exception e'
                              then HTTPException 500 (''Internal server error: '' @ str_exn e)
                              else e'))
           else r = Inl e \<and> deleted (trace w3) = deleted (trace w2) \<and> w3 = w2"
        using handler_spec [of env "str_uuid u" e w2] by blast
      define w' where "w' = emit (EvTempRemove tmp_pdf_path) w3"
      have eq: "summarize_pdf env u file language w = Some (r, w')"
        using unf Inr i m h by (simp add: w'_def)
      have nr: "r \<noteq> Inr resp" for resp
        using hc by (cases "is_Exception e"; cases "store_fault env OpDelete (str_uuid u)") auto
      have L: "?L w'" using il hl by (simp add: w'_def)
      have O: "?O w'" using io ho by (simp add: w'_def)
      have C: "?C r w'"
        unfolding Some using hc id
        by (cases "is_Exception e"; cases "store_fault env OpDelete (str_uuid u)")
           (simp_all add: w'_def)
      have R: "?R r" using nr by simp
      from eq L O C R show ?thesis by blast
    qed
  qed
qed

subsection \<open>Question answering\<close>

lemma except_bind:
  "except_Exception h (bind_io m f) =
     (case m of
        (Inl e, w) \<Rightarrow> except_Exception h (Inl e, w)
      | (Inr x, w) \<Rightarrow> except_Exception h (f x w))"
  by (cases m) (auto simp: bind_io_def split: sum.splits)

lemma lookup_collections:
  "collections w' = collections w \<Longrightarrow> lookup env w' name q k = lookup env w name q k"
  by (simp add: lookup_def cong: option.case_cong)

lemma query_temp_spec:
  "fst (query_temp env name q w) =
     (case lookup env w name q 2 of
        Inl e \<Rightarrow> if is_Exception e then Inr None else Inl e
      | Inr results \<Rightarrow>
          (case (documents results, distances results) of
             (docs # ds, (d1 # row) # rows) \<Rightarrow>
               if d1 < 1.0 then Inr (Some (joined docs)) else Inr None
           | other \<Rightarrow> Inr None))"
  "collections (snd (query_temp env name q w)) = collections w"
  "llm_calls (trace (snd (query_temp env name q w))) = llm_calls (trace w)"
  "deleted (trace (snd (query_temp env name q w))) = deleted (trace w)"
  by (auto simp: query_temp_def lookup_def get_collection_def collection_query_def bind_io_def
      except_Exception_def first_distance_def first_documents_def Let_def py_join_joined
      split: option.splits sum.splits list.splits)

lemma query_main_spec:
  "fst (query_main env q w) = tier2 env q w"
  "collections (snd (query_main env q w)) = collections w"
  "llm_calls (trace (snd (query_main env q w))) = llm_calls (trace w)"
  "deleted (trace (snd (query_main env q w))) = deleted (trace w)"
  by (auto simp: query_main_def tier2_def lookup_def get_collection_def collection_query_def
      bind_io_def except_Exception_def first_distance_def first_documents_def Let_def
      py_join_joined split: option.splits sum.splits list.splits)

lemma tier1_Inl: "tier1 env request q w = Inl e \<Longrightarrow> \<not> is_Exception e"
  by (auto simp: tier1_def split: option.splits sum.splits list.splits if_splits)

lemma tier2_Inl: "tier2 env q w = Inl e \<Longrightarrow> \<not> is_Exception e"
  by (auto simp: tier2_def split: option.splits sum.splits list.splits if_splits)

lemma question_answering_spec:
  "fst (question_answering env request w) =
     (case embed_query env (question request) of
        Inl e \<Rightarrow> Inl (surfaced e)
      | Inr q \<Rightarrow>
          (case tier1 env request q w of
             Inl e \<Rightarrow> Inl e
           | Inr (Some context1) \<Rightarrow>
               generated env (length (llm_calls (trace w)))
                 (qa_request_for (lang request) context1 (question request))
           | Inr None \<Rightarrow>
               (case tier2 env q w of
                  Inl e \<Rightarrow> Inl e
                | Inr (Some context2) \<Rightarrow>
                    generated env (length (llm_calls (trace w)))
                      (qa_request_for (lang request) context2 (question request))
                | Inr None \<Rightarrow> Inr (AnswerResponse (no_answer_message (lang request))))))"
    (is ?A)
  "llm_calls (trace (snd (question_answering env request w))) =
     llm_calls (trace w) @
     (case embed_query env (question request) of
        Inl e \<Rightarrow> []
      | Inr q \<Rightarrow>
          (case tier1 env request q w of
             Inl e \<Rightarrow> []
           | Inr (Some context1) \<Rightarrow>
               [qa_request_for (lang request) context1 (question request)]
           | Inr None \<Rightarrow>
               (case tier2 env q w of
                  Inl e \<Rightarrow> []
                | Inr (Some context2) \<Rightarrow>
                    [qa_request_for (lang request) context2 (question request)]
                | Inr None \<Rightarrow> [])))"
    (is ?B)
  "deleted (trace (snd (question_answering env request w))) = deleted (trace w)" (is ?C)
  "collections (snd (question_answering env request w)) = collections w" (is ?D)
proof -
  define h :: "exn \<Rightarrow> world \<Rightarrow> response io" where
    "h = (\<lambda>e w5. (Inl (internal_server_error e), w5))"
  define fin where "fin = (\<lambda>context w3.
     case context of
       Some context_text \<Rightarrow>
         (let prompts = (case PROMPT_TEMPLATES (lang request) of
                           Some p \<Rightarrow> p | None \<Rightarrow> prompts_en)
          in bind_io (create_chat_completion env
                        (qa_chat_request prompts context_text (question request)) w3)
               (\<lambda>answer w4. (Inr (AnswerResponse answer), w4)))
     | None \<Rightarrow>
         (Inr (AnswerResponse
                 (case NO_CONTEXT_MESSAGES (lang request) of
                    Some m \<Rightarrow> m
                  | None \<Rightarrow> no_context_en)), w3))"
  define w1 where "w1 = emit (EvEmbedQuery (question request)) w"
  have hs: "except_Exception h (Inl e, w') = (Inl (surfaced e), w')" for e w'
    by (simp add: except_Exception_def h_def surfaced_def internal_server_error_def)
  have hn: "\<not> is_Exception e \<Longrightarrow> except_Exception h (Inl e, w') = (Inl e, w')" for e w'
    by (simp add: except_Exception_def)
  have hr: "except_Exception h (Inr x, w') = (Inr x, w')" for x w'
    by (simp add: except_Exception_def)
  have fin_None: "except_Exception h (fin None w3) =
      (Inr (AnswerResponse (no_answer_message (lang request))), w3)" for w3
    by (simp add: fin_def NO_CONTEXT_MESSAGES_get hr)
  have fin_Some: "except_Exception h (fin (Some ctx) w3) =
      (generated env (length (llm_calls (trace w3)))
         (qa_request_for (lang request) ctx (question request)),
       emit (EvLLM (qa_request_for (lang request) ctx (question request))) w3)" for ctx w3
    by (cases "llm env (length (llm_calls (trace w3)))
                 (qa_request_for (lang request) ctx (question request))")
       (simp_all add: fin_def PROMPT_TEMPLATES_get qa_chat_request_for create_chat_completion_def
          bind_io_def hs hr generated_def)
  have all: "?A \<and> ?B \<and> ?C \<and> ?D"
  proof (cases "embed_query env (question request)")
    case (Inl e)
    have "question_answering env request w = (Inl (surfaced e), w1)"
      unfolding question_answering_def h_def [symmetric] except_bind w1_def [symmetric]
      using Inl by (simp add: hs)
    then show ?thesis using Inl by (simp add: w1_def)
  next
    case (Inr q)
    define s1 where "s1 =
      (case document_id request of
         None \<Rightarrow> (Inr None, w1)
       | Some name \<Rightarrow>
           if name \<noteq> [] then query_temp env name q w1 else (Inr None, w1))"
    have l1: "lookup env w1 name q k = lookup env w name q k" for name k
      by (rule lookup_collections) (simp add: w1_def)
    have f1: "fst s1 = tier1 env request q w"
      by (simp add: s1_def tier1_def query_temp_spec l1 split: option.splits)
    have c1: "collections (snd s1) = collections w"
      and ll1: "llm_calls (trace (snd s1)) = llm_calls (trace w)"
      and d1: "deleted (trace (snd s1)) = deleted (trace w)"
      by (simp_all add: s1_def query_temp_spec w1_def split: option.splits)
    have qa: "question_answering env request w =
        except_Exception h (bind_io s1 (\<lambda>context1 w2.
          bind_io (if context1 = None then query_main env q w2 else (Inr context1, w2)) fin))"
      unfolding question_answering_def h_def [symmetric] fin_def [symmetric]
        w1_def [symmetric] s1_def
      using Inr by (simp add: bind_io_def)
    obtain r1 w2 where s1: "s1 = (r1, w2)" by (cases s1)
    have r1: "r1 = tier1 env request q w" using f1 s1 by simp
    have c2: "collections w2 = collections w"
      and ll2: "llm_calls (trace w2) = llm_calls (trace w)"
      and d2: "deleted (trace w2) = deleted (trace w)"
      using c1 ll1 d1 s1 by simp_all
    show ?thesis
    proof (cases r1)
      case (Inl e)
      have "\<not> is_Exception e" using Inl r1 tier1_Inl [of env request q w e] by simp
      then have "question_answering env request w = (Inl e, w2)"
        unfolding qa except_bind s1 using Inl by (simp add: hn)
      then show ?thesis
        using Inr Inl r1 [symmetric] c2 ll2 d2 by simp
    next
      case ctx1: (Inr context1)
      show ?thesis
      proof (cases context1)
        case (Some ctx)
        have "question_answering env request w =
            (generated env (length (llm_calls (trace w)))
               (qa_request_for (lang request) ctx (question request)),
             emit (EvLLM (qa_request_for (lang request) ctx (question request))) w2)"
          unfolding qa except_bind s1 using ctx1 Some
          by (simp add: bind_io_def fin_Some ll2)
        then show ?thesis
          using Inr ctx1 Some r1 [symmetric] c2 ll2 d2 by simp
      next
        case None
        obtain r2 w3 where s2: "query_main env q w2 = (r2, w3)"
          by (cases "query_main env q w2")
        have l2: "lookup env w2 name q k = lookup env w name q k" for name k
          by (rule lookup_collections) (simp add: c2)
        have r2: "r2 = tier2 env q w"
          using query_main_spec(1) [of env q w2] s2 by (simp add: tier2_def l2)
        have c3: "collections w3 = collections w"
          and ll3: "llm_calls (trace w3) = llm_calls (trace w)"
          and d3: "deleted (trace w3) = deleted (trace w)"
          using query_main_spec(2-4) [of env q w2] s2 c2 ll2 d2 by simp_all
        have qa2: "question_answering env request w =
            (case r2 of
               Inl e \<Rightarrow> except_Exception h (Inl e, w3)
             | Inr context \<Rightarrow> except_Exception h (fin context w3))"
          unfolding qa except_bind s1 using ctx1 None s2
          by (simp add: except_bind split: sum.splits)
        show ?thesis
        proof (cases r2)
          case (Inl e)
          have "\<not> is_Exception e" using Inl r2 tier2_Inl [of env q w e] by simp
          then have "question_answering env request w = (Inl e, w3)"
            unfolding qa2 using Inl by (simp add: hn)
          then show ?thesis
            using Inr ctx1 None Inl r1 [symmetric] r2 [symmetric] c3 ll3 d3 by simp
        next
          case ctx2: (Inr context2)
          show ?thesis
          proof (cases context2)
            case (Some ctx)
            have "question_answering env request w =
                (generated env (length (llm_calls (trace w)))
                   (qa_request_for (lang request) ctx (question request)),
                 emit (EvLLM (qa_request_for (lang request) ctx (question request))) w3)"
              unfolding qa2 using ctx2 Some by (simp add: fin_Some ll3)
            then show ?thesis
              using Inr ctx1 None ctx2 Some r1 [symmetric] r2 [symmetric] c3 ll3 d3 by simp
          next
            case n2: None
            have "question_answering env request w =
                (Inr (AnswerResponse (no_answer_message (lang request))), w3)"
              unfolding qa2 using ctx2 n2 by (simp add: fin_None)
            then show ?thesis
              using Inr ctx1 None ctx2 n2 r1 [symmetric] r2 [symmetric] c3 ll3 d3 by simp
          qed
        qed
      qed
    qed
  qed
  show ?A using all by blast
  show ?B using all by blast
  show ?C using all by blast
  show ?D using all by blast
qed

subsection \<open>Evaluation of the examples\<close>

lemma len_hex32: "length (hex32 u) = 32" by (simp add: hex32_def)

lemma len_uuid: "length (str_uuid u) = 36" by (simp add: str_uuid_def Let_def len_hex32)

lemma uuid_not_main [simp]:
  "str_uuid u \<noteq> ''main_research_papers''" "''main_research_papers'' \<noteq> str_uuid u"
proof -
  have "length (str_uuid u) \<noteq> length ''main_research_papers''" by (simp add: len_uuid)
  then show "str_uuid u \<noteq> ''main_research_papers''" by metis
  then show "''main_research_papers'' \<noteq> str_uuid u" by metis
qed

lemma clean_body: "clean_text ''Some body text.'' = ''Some body text.''"
  by (simp add: clean_text_def py_strip_def table_re_def citation_re_def header_re_def
      blank_re_def lit_def dot_def nl_def py_isspace_def py_isdecimal_def)

lemma created_append [simp]: "created (xs @ ys) = created xs @ created ys"
  by (induction xs rule: created.induct) simp_all


lemma model_requests_b:
  "model_requests env_b pdf0 language 0 =
     [map_request_for language ''Some body text.'', reduce_request_for language [''{}'']]"
  by (simp add: model_requests_def summary_requests_def summary_chunks_def clean_body Let_def
      env_b_def pdf0_def py_isspace_def)

section \<open>Question answering: tier selection\<close>

text \<open>
  Claim C1, as amended. When the question is embedded, the answer follows the two-tier
  rule: if tier 1 admits, the answer is generated from the tier-1 context, whatever the
  main collection holds; otherwise, if tier 2 admits, it is generated from the tier-2
  context; otherwise it is the fixed no-answer message of the requested language (the
  English one for an unknown language code). Generated means: the model is called exactly
  once, with the request that holds the context and the question, and the answer is its
  reply, or the HTTP 500 built from the exception when the call raises an \<^verbatim>\<open>Exception\<close>.
  In the third case the model is not called. When the embedding of the question raises an
  \<^verbatim>\<open>Exception\<close>, the answer is the HTTP 500 built from it, no collection is queried and
  the model is not called. An exception that is not an \<^verbatim>\<open>Exception\<close>, raised by the
  embedding, a tier query or the model, leaves the endpoint as it is.
\<close>

theorem qa_tier_selection:
  "fst (question_answering env request w) =
     (case embed_query env (question request) of
        Inl e \<Rightarrow> Inl (surfaced e)
      | Inr q \<Rightarrow>
          (case tier1 env request q w of
             Inl e \<Rightarrow> Inl e
           | Inr (Some context1) \<Rightarrow>
               generated env (length (llm_calls (trace w)))
                 (qa_request_for (lang request) context1 (question request))
           | Inr None \<Rightarrow>
               (case tier2 env q w of
                  Inl e \<Rightarrow> Inl e
                | Inr (Some context2) \<Rightarrow>
                    generated env (length (llm_calls (trace w)))
                      (qa_request_for (lang request) context2 (question request))
                | Inr None \<Rightarrow> Inr (AnswerResponse (no_answer_message (lang request)))))) \<and>
   llm_calls (trace (snd (question_answering env request w))) =
     llm_calls (trace w) @
     (case embed_query env (question request) of
        Inl e \<Rightarrow> []
      | Inr q \<Rightarrow>
          (case tier1 env request q w of
             Inl e \<Rightarrow> []
           | Inr (Some context1) \<Rightarrow>
               [qa_request_for (lang request) context1 (question request)]
           | Inr None \<Rightarrow>
               (case tier2 env q w of
                  Inl e \<Rightarrow> []
                | Inr (Some context2) \<Rightarrow>
                    [qa_request_for (lang request) context2 (question request)]
                | Inr None \<Rightarrow> [])))"
  by (rule conjI) (rule question_answering_spec(1), rule question_answering_spec(2))

text \<open>
  Three requests. A document id whose collection holds three chunks at distance 0.5: the
  context is the two nearest chunks joined by a blank line, although the main collection
  would admit too. A document id without a collection, in Indonesian: tier 2 answers from
  the single chunk of the main collection, with the Indonesian user text. Scenario B of
  the specification: no document id and a main-collection distance of 1.5 give the
  Indonesian no-answer message for \<open>lang = id\<close>, with no model call.
\<close>

theorem qa_tier_selection_witness:
  "tier1 env_near \<lparr>document_id = Some ''doc-1'', question = ''What?'', lang = ''en''\<rparr> [0] w_doc =
     Inr (Some (''First chunk.'' @ [nl, nl] @ ''Second chunk.'')) \<and>
   tier2 env_near [0] w_doc =
     Inr (Some ''Artificial intelligence is a branch of computer science.'') \<and>
   fst (question_answering env_near
     \<lparr>document_id = Some ''doc-1'', question = ''What?'', lang = ''en''\<rparr> w_doc) =
     Inr (AnswerResponse (''Context:'' @ [nl] @ ''---'' @ [nl] @
       ''First chunk.'' @ [nl, nl] @ ''Second chunk.'' @ [nl] @ ''---'' @ [nl] @
       ''Question: What?'')) \<and>
   llm_calls (trace (snd (question_answering env_near
     \<lparr>document_id = Some ''doc-1'', question = ''What?'', lang = ''en''\<rparr> w_doc))) =
     [\<lparr>messages =
         [(''system'', qa_system prompts_en),
          (''user'', ''Context:'' @ [nl] @ ''---'' @ [nl] @
             ''First chunk.'' @ [nl, nl] @ ''Second chunk.'' @ [nl] @ ''---'' @ [nl] @
             ''Question: What?'')],
       max_tokens = 512, temperature = 0.3, json_object = False\<rparr>] \<and>
   tier1 env_near \<lparr>document_id = Some ''gone'', question = ''Apa?'', lang = ''id''\<rparr> [0] w_doc =
     Inr None \<and>
   fst (question_answering env_near
     \<lparr>document_id = Some ''gone'', question = ''Apa?'', lang = ''id''\<rparr> w_doc) =
     Inr (AnswerResponse (''Konteks:'' @ [nl] @ ''---'' @ [nl] @
       ''Artificial intelligence is a branch of computer science.'' @ [nl] @ ''---'' @ [nl] @
       ''Pertanyaan: Apa?'')) \<and>
   tier2 env_b [0] w0 = Inr None \<and>
   fst (question_answering env_b \<lparr>document_id = None, question = ''Apa?'', lang = ''id''\<rparr> w0) =
     Inr (AnswerResponse ''Hmm, saya tidak melihat jawaban yang pas dari data saat ini. Bisa jadi pertanyaannya perlu sedikit diperjelas.'') \<and>
   llm_calls (trace (snd (question_answering env_b
     \<lparr>document_id = None, question = ''Apa?'', lang = ''id''\<rparr> w0))) = []"
proof -
  have a1: "tier1 env_near \<lparr>document_id = Some ''doc-1'', question = ''What?'', lang = ''en''\<rparr>
      [0] w_doc = Inr (Some (''First chunk.'' @ [nl, nl] @ ''Second chunk.''))"
    by (simp add: tier1_def lookup_def joined_def env_near_def env_b_def w_doc_def)
  have a2: "tier2 env_near [0] w_doc =
      Inr (Some ''Artificial intelligence is a branch of computer science.'')"
    by (simp add: tier2_def lookup_def joined_def env_near_def env_b_def w_doc_def)
  have g1: "tier1 env_near \<lparr>document_id = Some ''gone'', question = ''Apa?'', lang = ''id''\<rparr>
      [0] w_doc = Inr None"
    by (simp add: tier1_def lookup_def env_near_def env_b_def w_doc_def)
  have b2: "tier2 env_b [0] w0 = Inr None"
    by (simp add: tier2_def lookup_def env_b_def w0_def)
  have b1: "tier1 env_b \<lparr>document_id = None, question = ''Apa?'', lang = ''id''\<rparr> [0] w0 =
      Inr None"
    by (simp add: tier1_def)
  have n: "fst (question_answering env_near
       \<lparr>document_id = Some ''doc-1'', question = ''What?'', lang = ''en''\<rparr> w_doc) =
       Inr (AnswerResponse (''Context:'' @ [nl] @ ''---'' @ [nl] @
         ''First chunk.'' @ [nl, nl] @ ''Second chunk.'' @ [nl] @ ''---'' @ [nl] @
         ''Question: What?'')) \<and>
     llm_calls (trace (snd (question_answering env_near
       \<lparr>document_id = Some ''doc-1'', question = ''What?'', lang = ''en''\<rparr> w_doc))) =
       [\<lparr>messages =
           [(''system'', qa_system prompts_en),
            (''user'', ''Context:'' @ [nl] @ ''---'' @ [nl] @
               ''First chunk.'' @ [nl, nl] @ ''Second chunk.'' @ [nl] @ ''---'' @ [nl] @
               ''Question: What?'')],
         max_tokens = 512, temperature = 0.3, json_object = False\<rparr>]"
    using qa_tier_selection [of env_near
        "\<lparr>document_id = Some ''doc-1'', question = ''What?'', lang = ''en''\<rparr>" w_doc] a1
    by (simp add: generated_def qa_request_for_def templates_for_def env_near_def env_b_def
        w_doc_def)
  have g: "fst (question_answering env_near
       \<lparr>document_id = Some ''gone'', question = ''Apa?'', lang = ''id''\<rparr> w_doc) =
       Inr (AnswerResponse (''Konteks:'' @ [nl] @ ''---'' @ [nl] @
         ''Artificial intelligence is a branch of computer science.'' @ [nl] @ ''---'' @ [nl] @
         ''Pertanyaan: Apa?''))"
    using qa_tier_selection [of env_near
        "\<lparr>document_id = Some ''gone'', question = ''Apa?'', lang = ''id''\<rparr>" w_doc] g1 a2
    by (simp add: generated_def qa_request_for_def templates_for_def env_near_def env_b_def
        w_doc_def)
  have b: "fst (question_answering env_b
       \<lparr>document_id = None, question = ''Apa?'', lang = ''id''\<rparr> w0) =
       Inr (AnswerResponse ''Hmm, saya tidak melihat jawaban yang pas dari data saat ini. Bisa jadi pertanyaannya perlu sedikit diperjelas.'') \<and>
     llm_calls (trace (snd (question_answering env_b
       \<lparr>document_id = None, question = ''Apa?'', lang = ''id''\<rparr> w0))) = []"
    using qa_tier_selection [of env_b
        "\<lparr>document_id = None, question = ''Apa?'', lang = ''id''\<rparr>" w0] b1 b2
    by (simp add: no_answer_message_def no_context_id_def env_b_def w0_def)
  show ?thesis using a1 a2 g1 b2 n g b by simp
qed

text \<open>
  Claim C1 as stated fails: no document id is supplied and the nearest distance in the
  main collection is 1.5, so the claim gives the no-answer message; but the embedding of
  the question raises, and the caller gets an HTTP 500.
\<close>

theorem qa_embedding_failure_counterexample:
  "document_id \<lparr>document_id = None, question = ''What?'', lang = ''en''\<rparr> = None \<and>
   lookup env_query_embedding_fails w0 ''main_research_papers'' [0] 1 =
     Inr \<lparr>documents = [[''Artificial intelligence is a branch of computer science.'']],
          distances = [[1.5]]\<rparr> \<and>
   fst (question_answering env_query_embedding_fails
     \<lparr>document_id = None, question = ''What?'', lang = ''en''\<rparr> w0) =
     Inl (HTTPException 500 ''Internal server error: CUDA out of memory'') \<and>
   fst (question_answering env_query_embedding_fails
     \<lparr>document_id = None, question = ''What?'', lang = ''en''\<rparr> w0) \<noteq>
     Inr (AnswerResponse no_context_en)"
  by (simp add: question_answering_def bind_io_def except_Exception_def
      internal_server_error_def lookup_def env_query_embedding_fails_def env_b_def w0_def)

section \<open>Ingestion: effects on the store and the trace\<close>

text \<open>
  Claim C10. A request whose file name does not end in \<^verbatim>\<open>.pdf\<close> is answered with
  HTTP 400 and the world is unchanged: no collaborator was called and no collection was
  created, changed or deleted.
\<close>

theorem non_pdf_rejected:
  assumes "\<not> endswith (filename file) ''.pdf''"
  shows "summarize_pdf env u file language w =
           Some (Inl (HTTPException 400 ''Invalid file type. Please upload a PDF.''), w)"
  using assms by (simp add: summarize_pdf_def)

theorem non_pdf_rejected_witness:
  "\<not> endswith (filename \<lparr>filename = ''notes.txt'', content = []\<rparr>) ''.pdf'' \<and>
   summarize_pdf env_b 5 \<lparr>filename = ''notes.txt'', content = []\<rparr> ''en'' w0 =
     Some (Inl (HTTPException 400 ''Invalid file type. Please upload a PDF.''), w0)"
proof -
  have h: "\<not> endswith (filename \<lparr>filename = ''notes.txt'', content = []\<rparr>) ''.pdf''"
    by (simp add: endswith_def)
  show ?thesis using h non_pdf_rejected [OF h, of env_b 5 "''en''" w0] by simp
qed




text \<open>
  Claim C8. The document id is never the name of the main collection; a \<^verbatim>\<open>/summarize\<close>
  request deletes nothing or attempts one deletion, of the collection named by its own
  document id, and leaves the main collection as it was; a \<^verbatim>\<open>/qa\<close> request deletes
  nothing and leaves every collection as it was. (The root endpoint is a constant.)
\<close>

theorem main_collection_never_deleted:
  "str_uuid u \<noteq> ''main_research_papers'' \<and>
   (\<exists>r w'. summarize_pdf env u file language w = Some (r, w') \<and>
      (deleted (trace w') = deleted (trace w) \<or>
       deleted (trace w') = deleted (trace w) @ [str_uuid u]) \<and>
      collections w' ''main_research_papers'' = collections w ''main_research_papers'') \<and>
   deleted (trace (snd (question_answering env request w))) = deleted (trace w) \<and>
   collections (snd (question_answering env request w)) = collections w"
proof -
  have "\<exists>r w'. summarize_pdf env u file language w = Some (r, w') \<and>
      (deleted (trace w') = deleted (trace w) \<or>
       deleted (trace w') = deleted (trace w) @ [str_uuid u]) \<and>
      collections w' ''main_research_papers'' = collections w ''main_research_papers''"
  proof (cases "endswith (filename file) ''.pdf''")
    case False
    then show ?thesis by (simp add: summarize_pdf_def)
  next
    case True
    obtain r w' where s: "summarize_pdf env u file language w = Some (r, w')"
      and o: "\<forall>n. n \<noteq> str_uuid u \<longrightarrow> collections w' n = collections w n"
      and c: "case first_error env u file language w of
        None \<Rightarrow>
          (\<exists>resp. r = Inr resp) \<and> deleted (trace w') = deleted (trace w) \<and>
          (\<exists>c. collections w' (str_uuid u) = Some c \<and> entries c \<noteq> [])
      | Some e \<Rightarrow>
          if is_Exception e
          then deleted (trace w') = deleted (trace w) @ [str_uuid u] \<and>
               (case store_fault env OpDelete (str_uuid u) of
                  None \<Rightarrow>
                    r = Inl (HTTPException 500 (''Internal server error: '' @ str_exn e)) \<and>
                    collections w' (str_uuid u) = None
                | Some e' \<Rightarrow>
                    r = Inl (if is_Exception e'
                             then HTTPException 500 (''Internal server error: '' @ str_exn e)
                             else e'))
          else r = Inl e \<and> deleted (trace w') = deleted (trace w)"
      using summarize_pdf_spec [OF True, of env u language w] by (elim exE conjE) (rule that)
    have m: "collections w' ''main_research_papers'' = collections w ''main_research_papers''"
      using o by simp
    have "deleted (trace w') = deleted (trace w) \<or>
          deleted (trace w') = deleted (trace w) @ [str_uuid u]"
    proof (cases "first_error env u file language w")
      case None
      then show ?thesis using c by simp
    next
      case (Some e)
      then show ?thesis using c by (cases "is_Exception e") simp_all
    qed
    then show ?thesis using s m by blast
  qed
  then show ?thesis by (simp add: question_answering_spec(3,4))
qed

section \<open>The structured summary\<close>

text \<open>
  Claim C4, as amended. When the reduce output parses to a JSON object, the summary has
  exactly the four display fields, in order; a field whose key is missing holds the
  sentinel \<^verbatim>\<open>Tidak ditemukan.\<close>, and a field whose key is present holds the value of the
  key unchanged, also when that value is the empty string.
\<close>

theorem reduce_json_fields:
  assumes "json_loads env llm_output_text = Inr (JObject d)"
  shows "\<exists>a b c e. parse_summary env llm_output_text =
           Inr [(''Tujuan Penelitian'', a), (''Metode'', b), (''Hasil Utama'', c),
                (''Kesimpulan'', e)] \<and>
         a = (case map_of d ''research_objective'' of
                None \<Rightarrow> JString ''Tidak ditemukan.'' | Some v \<Rightarrow> v) \<and>
         b = (case map_of d ''methods'' of
                None \<Rightarrow> JString ''Tidak ditemukan.'' | Some v \<Rightarrow> v) \<and>
         c = (case map_of d ''main_results'' of
                None \<Rightarrow> JString ''Tidak ditemukan.'' | Some v \<Rightarrow> v) \<and>
         e = (case map_of d ''conclusions'' of
                None \<Rightarrow> JString ''Tidak ditemukan.'' | Some v \<Rightarrow> v)"
  using assms by (simp add: parse_summary_def dict_get_def)

theorem reduce_json_fields_witness:
  "json_loads env_missing_key ''{}'' = Inr (JObject
     [(''research_objective'', JString ''Measure recall.''), (''methods'', JString ''A survey.''),
      (''main_results'', JString ''Recall improves.'')]) \<and>
   parse_summary env_missing_key ''{}'' =
     Inr [(''Tujuan Penelitian'', JString ''Measure recall.''),
          (''Metode'', JString ''A survey.''),
          (''Hasil Utama'', JString ''Recall improves.''),
          (''Kesimpulan'', JString ''Tidak ditemukan.'')]"
proof -
  have h: "json_loads env_missing_key ''{}'' = Inr (JObject
     [(''research_objective'', JString ''Measure recall.''), (''methods'', JString ''A survey.''),
      (''main_results'', JString ''Recall improves.'')])"
    by (simp add: env_missing_key_def)
  show ?thesis using h reduce_json_fields [OF h] by auto
qed

text \<open>
  Claim C4 as stated fails: a key present with the empty string is shown as the empty
  string, not as the sentinel.
\<close>

theorem reduce_json_empty_counterexample:
  "json_loads env_empty_field ''{}'' = Inr (JObject
     [(''research_objective'', JString ''''), (''methods'', JString ''A survey.''),
      (''main_results'', JString ''Recall improves.''),
      (''conclusions'', JString ''It works.'')]) \<and>
   parse_summary env_empty_field ''{}'' =
     Inr [(''Tujuan Penelitian'', JString ''''), (''Metode'', JString ''A survey.''),
          (''Hasil Utama'', JString ''Recall improves.''),
          (''Kesimpulan'', JString ''It works.'')] \<and>
   JString '''' \<noteq> JString ''Tidak ditemukan.''"
  by (simp add: parse_summary_def dict_get_def env_empty_field_def)

text \<open>
  Claim C5, as amended. A language code other than \<^verbatim>\<open>en\<close> and \<^verbatim>\<open>id\<close> is treated as
  \<^verbatim>\<open>en\<close>. The model requests of an ingestion are exactly the map requests and the
  reduce request built with the system and user texts of the language (the Indonesian
  texts for \<^verbatim>\<open>id\<close>, the English texts for every other code). The summary of a
  successful ingestion is built from the JSON object \<open>d\<close> that the reduce reply parses to:
  its four field names are the Indonesian names and a field whose key is missing in \<open>d\<close>
  holds the sentinel \<^verbatim>\<open>Tidak ditemukan.\<close>, for every language code.
\<close>

theorem language_selects_prompts:
  "summarize_pdf env u file language w =
     summarize_pdf env u file (if language = ''en'' \<or> language = ''id'' then language else ''en'') w \<and>
   (\<exists>r w'. summarize_pdf env u file language w = Some (r, w') \<and>
      llm_calls (trace w') =
        llm_calls (trace w) @
        (if endswith (filename file) ''.pdf''
         then model_requests env file language (length (llm_calls (trace w))) else []) \<and>
      (\<forall>resp. r = Inr resp \<longrightarrow>
         (\<exists>markdown out d.
            convert env (content file) = Inr markdown \<and>
            summary_reply env language (length (llm_calls (trace w))) (clean_text markdown) =
              Inr out \<and>
            json_loads env out = Inr (JObject d) \<and>
            resp = SummaryResponse (filename file)
              [(''Tujuan Penelitian'',
                  case map_of d ''research_objective'' of
                    None \<Rightarrow> JString ''Tidak ditemukan.'' | Some v \<Rightarrow> v),
               (''Metode'',
                  case map_of d ''methods'' of
                    None \<Rightarrow> JString ''Tidak ditemukan.'' | Some v \<Rightarrow> v),
               (''Hasil Utama'',
                  case map_of d ''main_results'' of
                    None \<Rightarrow> JString ''Tidak ditemukan.'' | Some v \<Rightarrow> v),
               (''Kesimpulan'',
                  case map_of d ''conclusions'' of
                    None \<Rightarrow> JString ''Tidak ditemukan.'' | Some v \<Rightarrow> v)]
              (str_uuid u))))"
proof (rule conjI)
  show "summarize_pdf env u file language w =
     summarize_pdf env u file (if language = ''en'' \<or> language = ''id'' then language else ''en'') w"
    by (simp add: summarize_pdf_def PROMPT_TEMPLATES_def)
next
  show "\<exists>r w'. summarize_pdf env u file language w = Some (r, w') \<and>
      llm_calls (trace w') =
        llm_calls (trace w) @
        (if endswith (filename file) ''.pdf''
         then model_requests env file language (length (llm_calls (trace w))) else []) \<and>
      (\<forall>resp. r = Inr resp \<longrightarrow>
         (\<exists>markdown out d.
            convert env (content file) = Inr markdown \<and>
            summary_reply env language (length (llm_calls (trace w))) (clean_text markdown) =
              Inr out \<and>
            json_loads env out = Inr (JObject d) \<and>
            resp = SummaryResponse (filename file)
              [(''Tujuan Penelitian'',
                  case map_of d ''research_objective'' of
                    None \<Rightarrow> JString ''Tidak ditemukan.'' | Some v \<Rightarrow> v),
               (''Metode'',
                  case map_of d ''methods'' of
                    None \<Rightarrow> JString ''Tidak ditemukan.'' | Some v \<Rightarrow> v),
               (''Hasil Utama'',
                  case map_of d ''main_results'' of
                    None \<Rightarrow> JString ''Tidak ditemukan.'' | Some v \<Rightarrow> v),
               (''Kesimpulan'',
                  case map_of d ''conclusions'' of
                    None \<Rightarrow> JString ''Tidak ditemukan.'' | Some v \<Rightarrow> v)]
              (str_uuid u)))"
  proof (cases "endswith (filename file) ''.pdf''")
    case False
    then show ?thesis by (simp add: summarize_pdf_def)
  next
    case True
    obtain r w' where "summarize_pdf env u file language w = Some (r, w')"
      and "llm_calls (trace w') =
        llm_calls (trace w) @ model_requests env file language (length (llm_calls (trace w)))"
      and "\<forall>resp. r = Inr resp \<longrightarrow>
         (\<exists>markdown out d.
            convert env (content file) = Inr markdown \<and>
            summary_reply env language (length (llm_calls (trace w))) (clean_text markdown) =
              Inr out \<and>
            json_loads env out = Inr (JObject d) \<and>
            resp = SummaryResponse (filename file)
              [(''Tujuan Penelitian'',
                  case map_of d ''research_objective'' of
                    None \<Rightarrow> JString ''Tidak ditemukan.'' | Some v \<Rightarrow> v),
               (''Metode'',
                  case map_of d ''methods'' of
                    None \<Rightarrow> JString ''Tidak ditemukan.'' | Some v \<Rightarrow> v),
               (''Hasil Utama'',
                  case map_of d ''main_results'' of
                    None \<Rightarrow> JString ''Tidak ditemukan.'' | Some v \<Rightarrow> v),
               (''Kesimpulan'',
                  case map_of d ''conclusions'' of
                    None \<Rightarrow> JString ''Tidak ditemukan.'' | Some v \<Rightarrow> v)]
              (str_uuid u))"
      using summarize_pdf_spec [OF True, of env u language w] by (elim exE conjE) (rule that)
    then show ?thesis using True by (intro exI [of _ r] exI [of _ w']) simp
  qed
qed

text \<open>
  An \<^verbatim>\<open>id\<close> request sends the Indonesian texts and an \<^verbatim>\<open>fr\<close> request the English ones;
  the \<^verbatim>\<open>fr\<close> request is the \<^verbatim>\<open>en\<close> request, and its summary, for a reduce reply without
  keys, holds the Indonesian sentinel in every field.
\<close>

theorem language_selects_prompts_witness:
  "llm_calls (final_trace (summarize_pdf env_b 5 pdf0 ''id'' w0)) =
     [\<lparr>messages =
         [(''system'', ''Ringkaslah poin-poin utama dari teks berikut dalam satu paragraf yang ditulis dengan baik dalam Bahasa Indonesia.''),
          (''user'', ''Tolong ringkas teks ini: Some body text.'')],
       max_tokens = 512, temperature = 0.2, json_object = False\<rparr>,
      \<lparr>messages =
         [(''system'', ''Anda adalah seorang ahli peringkas riset akademis. Buatlah sebuah ringkasan akhir terstruktur dalam format JSON yang valid dalam Bahasa Indonesia. Kunci JSON harus: 'research_objective', 'methods', 'main_results', 'conclusions'. Jika informasi untuk kunci tidak ditemukan, kembalikan string kosong.''),
          (''user'', ''Berikut adalah kumpulan ringkasan:'' @ [nl, nl] @ ''---'' @ [nl] @ ''{}'' @
             [nl] @ ''---'')],
       max_tokens = 1024, temperature = 0.1, json_object = True\<rparr>] \<and>
   llm_calls (final_trace (summarize_pdf env_b 5 pdf0 ''fr'' w0)) =
     [\<lparr>messages =
         [(''system'', ''Summarize the key points of the following text in a single, well-written paragraph in English.''),
          (''user'', ''Please summarize this text: Some body text.'')],
       max_tokens = 512, temperature = 0.2, json_object = False\<rparr>,
      \<lparr>messages =
         [(''system'', ''You are an expert academic research summarizer. Generate a final structured summary in a valid JSON format in English. The JSON keys must be: 'research_objective', 'methods', 'main_results', 'conclusions'. If a key's information is not found, return an empty string.''),
          (''user'', ''Here are the summaries:'' @ [nl, nl] @ ''---'' @ [nl] @ ''{}'' @
             [nl] @ ''---'')],
       max_tokens = 1024, temperature = 0.1, json_object = True\<rparr>] \<and>
   summarize_pdf env_b 5 pdf0 ''fr'' w0 = summarize_pdf env_b 5 pdf0 ''en'' w0 \<and>
   map_option fst (summarize_pdf env_b 5 pdf0 ''fr'' w0) =
     Some (Inr (SummaryResponse ''paper.pdf''
       [(''Tujuan Penelitian'', JString ''Tidak ditemukan.''),
        (''Metode'', JString ''Tidak ditemukan.''),
        (''Hasil Utama'', JString ''Tidak ditemukan.''),
        (''Kesimpulan'', JString ''Tidak ditemukan.'')] (str_uuid 5)))"
proof -
  have p: "endswith (filename pdf0) ''.pdf''" by (simp add: endswith_def pdf0_def)
  have t: "llm_calls (trace w0) = []" by (simp add: w0_def)
  have e: "first_error env_b 5 pdf0 ''fr'' w0 = None"
    by (simp add: first_error_def summary_reply_def summary_chunks_def retrieval_chunks_def
      parse_error_def store_error_def clean_body Let_def env_b_def pdf0_def
      w0_def py_isspace_def)
  have j: "json_loads env_b out = Inr (JObject [])" for out by (simp add: env_b_def)
  have i: "llm_calls (final_trace (summarize_pdf env_b 5 pdf0 ''id'' w0)) =
      [map_request_for ''id'' ''Some body text.'', reduce_request_for ''id'' [''{}'']]"
    using language_selects_prompts [of env_b 5 pdf0 "''id''" w0, THEN conjunct2] p t
    by (auto simp: final_trace_def model_requests_b)
  have f: "llm_calls (final_trace (summarize_pdf env_b 5 pdf0 ''fr'' w0)) =
      [map_request_for ''fr'' ''Some body text.'', reduce_request_for ''fr'' [''{}'']]"
    using language_selects_prompts [of env_b 5 pdf0 "''fr''" w0, THEN conjunct2] p t
    by (auto simp: final_trace_def model_requests_b)
  have q: "summarize_pdf env_b 5 pdf0 ''fr'' w0 = summarize_pdf env_b 5 pdf0 ''en'' w0"
    using language_selects_prompts [of env_b 5 pdf0 "''fr''" w0] by simp
  obtain r w' where s: "summarize_pdf env_b 5 pdf0 ''fr'' w0 = Some (r, w')"
    and c: "case first_error env_b 5 pdf0 ''fr'' w0 of
        None \<Rightarrow>
          (\<exists>resp. r = Inr resp) \<and> deleted (trace w') = deleted (trace w0) \<and>
          (\<exists>c. collections w' (str_uuid 5) = Some c \<and> entries c \<noteq> [])
      | Some e \<Rightarrow>
          if is_Exception e
          then deleted (trace w') = deleted (trace w0) @ [str_uuid 5] \<and>
               (case store_fault env_b OpDelete (str_uuid 5) of
                  None \<Rightarrow>
                    r = Inl (HTTPException 500 (''Internal server error: '' @ str_exn e)) \<and>
                    collections w' (str_uuid 5) = None
                | Some e' \<Rightarrow>
                    r = Inl (if is_Exception e'
                             then HTTPException 500 (''Internal server error: '' @ str_exn e)
                             else e'))
          else r = Inl e \<and> deleted (trace w') = deleted (trace w0)"
    using summarize_pdf_spec [OF p, of env_b 5 "''fr''" w0] by (elim exE conjE) (rule that)
  obtain resp where r: "r = Inr resp" using c e by auto
  have "resp = SummaryResponse ''paper.pdf''
       [(''Tujuan Penelitian'', JString ''Tidak ditemukan.''),
        (''Metode'', JString ''Tidak ditemukan.''),
        (''Hasil Utama'', JString ''Tidak ditemukan.''),
        (''Kesimpulan'', JString ''Tidak ditemukan.'')] (str_uuid 5)"
    using language_selects_prompts [of env_b 5 pdf0 "''fr''" w0, THEN conjunct2] s r j
    by (auto simp: pdf0_def)
  then have m: "map_option fst (summarize_pdf env_b 5 pdf0 ''fr'' w0) =
     Some (Inr (SummaryResponse ''paper.pdf''
       [(''Tujuan Penelitian'', JString ''Tidak ditemukan.''),
        (''Metode'', JString ''Tidak ditemukan.''),
        (''Hasil Utama'', JString ''Tidak ditemukan.''),
        (''Kesimpulan'', JString ''Tidak ditemukan.'')] (str_uuid 5)))"
    using s r by simp
  show ?thesis
    using i f q m
    by (simp add: map_request_for_def reduce_request_for_def templates_for_def joined_def
        prompts_en_def prompts_id_def)
qed

text \<open>
  Claim C5 as stated fails: an \<^verbatim>\<open>en\<close> request whose reduce output has no key gets the
  sentinel \<^verbatim>\<open>Tidak ditemukan.\<close> in every field, the same summary as an \<^verbatim>\<open>id\<close> request.
\<close>

theorem sentinel_language_counterexample:
  "map_option fst (summarize_pdf env_b 5 pdf0 ''en'' w0) =
     Some (Inr (SummaryResponse ''paper.pdf''
       [(''Tujuan Penelitian'', JString ''Tidak ditemukan.''),
        (''Metode'', JString ''Tidak ditemukan.''),
        (''Hasil Utama'', JString ''Tidak ditemukan.''),
        (''Kesimpulan'', JString ''Tidak ditemukan.'')] (str_uuid 5))) \<and>
   map_option fst (summarize_pdf env_b 5 pdf0 ''id'' w0) =
     map_option fst (summarize_pdf env_b 5 pdf0 ''en'' w0)"
  by (simp add: summarize_pdf_def ingest_def summarize_def vectorize_def parse_summary_def
      create_chat_completion_def create_collection_def collection_add_def except_Exception_def
      bind_io_def emit_def Let_def endswith_def PROMPT_TEMPLATES_def py_str_isspace_def
      chunk_text_by_char_def clean_body dict_get_def env_b_def pdf0_def w0_def
      py_isspace_def map_request_def reduce_request_def)

section \<open>Cleaning: what each pass leaves behind\<close>

subsection \<open>Matching in general\<close>

lemma re_sub_unmatched: "unmatched pat s \<Longrightarrow> re_sub pat repl s = s"
  by (induction s) simp_all

lemma match_here_suffix: "match_here pat s = Some t \<Longrightarrow> \<exists>m. s = m @ t"
proof (induction pat s arbitrary: t rule: match_here.induct)
  case (1 s)
  then show ?case by simp
next
  case (2 p r)
  then show ?case by simp
next
  case (3 p r c cs)
  then show ?case by (auto split: if_splits)
next
  case (4 p r)
  then show ?case by simp
next
  case (5 p r c cs)
  then show ?case by (auto split: if_splits)
next
  case (6 p r)
  then show ?case by simp
next
  case (7 p r c cs)
  show ?case
  proof (cases "p c")
    case True
    show ?thesis
    proof (cases "match_here ((Star, p) # r) cs")
      case None
      then show ?thesis using 7 True by simp
    next
      case (Some u)
      then have "u = t" using "7.prems" True by simp
      then obtain m where "cs = m @ t" using "7.IH"(1) [OF True] Some by blast
      then have "c # cs = (c # m) @ t" by simp
      then show ?thesis by blast
    qed
  next
    case False
    then show ?thesis using 7 by simp
  qed
qed

lemma unmatched_suffix: "unmatched pat (a @ b) \<Longrightarrow> unmatched pat b"
  by (induction a) simp_all

lemma sp_nl [simp]: "py_isspace nl"
  by (simp add: py_isspace_def nl_def)

lemma chars_simps [simp]:
  "CHR ''|'' \<noteq> nl" "CHR ''#'' \<noteq> nl" "CHR ''['' \<noteq> nl" "CHR '']'' \<noteq> nl"
  "nl \<noteq> CHR ''|''" "nl \<noteq> CHR ''#''" "nl \<noteq> CHR ''[''" "nl \<noteq> CHR '']''"
  "\<not> py_isspace CHR ''#''" "\<not> py_isdecimal nl"
  by (simp_all add: nl_def py_isspace_def py_isdecimal_def)

lemma dot_simps [simp]: "\<not> dot nl" "c \<noteq> nl \<Longrightarrow> dot c"
  by (simp_all add: dot_def)

lemma lit_simps [simp]: "lit a a" "c \<noteq> a \<Longrightarrow> \<not> lit a c"
  by (simp_all add: lit_def)

lemma if_dot [simp]: "(if dot c then x else y) = (if c \<noteq> nl then x else y)"
  by (simp add: dot_def)

lemma if_lit [simp]: "(if lit a c then x else y) = (if c = a then x else y)"
  by (simp add: lit_def)

lemma firstline_simps [simp]:
  "firstline [] = []"
  "firstline (nl # cs) = []"
  "c \<noteq> nl \<Longrightarrow> firstline (c # cs) = c # firstline cs"
  by (simp_all add: firstline_def)

lemma firstline_append: "nl \<notin> set m \<Longrightarrow> firstline (m @ t) = m @ firstline t"
  by (induction m) auto

lemma firstline_prefix: "set (firstline a) \<subseteq> set (firstline (a @ b))"
  by (induction a) (auto simp: firstline_def)

lemma match_here_no_nl:
  "list_all (\<lambda>(q, p). \<not> p nl) pat \<Longrightarrow> match_here pat s = Some t \<Longrightarrow>
     \<exists>m. s = m @ t \<and> nl \<notin> set m"
proof (induction pat s arbitrary: t rule: match_here.induct)
  case (1 s)
  then show ?case by simp
next
  case (2 p r)
  then show ?case by simp
next
  case (3 p r c cs)
  show ?case
  proof (cases "p c")
    case True
    then have "match_here r cs = Some t" and "c \<noteq> nl" using "3.prems" by auto
    moreover have "list_all (\<lambda>(q, p). \<not> p nl) r" using "3.prems" by simp
    ultimately obtain m where "cs = m @ t" "nl \<notin> set m" using "3.IH" [OF True] by blast
    then have "c # cs = (c # m) @ t \<and> nl \<notin> set (c # m)" using \<open>c \<noteq> nl\<close> by simp
    then show ?thesis by blast
  next
    case False
    then show ?thesis using "3.prems" by simp
  qed
next
  case (4 p r)
  then show ?case by simp
next
  case (5 p r c cs)
  show ?case
  proof (cases "p c")
    case True
    then have "match_here ((Star, p) # r) cs = Some t" and "c \<noteq> nl" using "5.prems" by auto
    moreover have "list_all (\<lambda>(q, p). \<not> p nl) ((Star, p) # r)" using "5.prems" by simp
    ultimately obtain m where "cs = m @ t" "nl \<notin> set m" using "5.IH" [OF True] by blast
    then have "c # cs = (c # m) @ t \<and> nl \<notin> set (c # m)" using \<open>c \<noteq> nl\<close> by simp
    then show ?thesis by blast
  next
    case False
    then show ?thesis using "5.prems" by simp
  qed
next
  case (6 p r)
  then have "match_here r [] = Some t" "list_all (\<lambda>(q, p). \<not> p nl) r" by simp_all
  then show ?case using "6.IH" by blast
next
  case (7 p r c cs)
  have r: "list_all (\<lambda>(q, p). \<not> p nl) r" using "7.prems" by simp
  show ?case
  proof (cases "p c")
    case True
    then have "c \<noteq> nl" using "7.prems" by auto
    show ?thesis
    proof (cases "match_here ((Star, p) # r) cs")
      case None
      then have "match_here r (c # cs) = Some t" using "7.prems" True by simp
      then show ?thesis using "7.IH"(2) [OF True None r] by blast
    next
      case (Some u)
      then have "match_here ((Star, p) # r) cs = Some t" using "7.prems" True by simp
      then obtain m where "cs = m @ t" "nl \<notin> set m"
        using "7.IH"(1) [OF True "7.prems"(1)] by blast
      then have "c # cs = (c # m) @ t \<and> nl \<notin> set (c # m)" using \<open>c \<noteq> nl\<close> by simp
      then show ?thesis by blast
    qed
  next
    case False
    then have "match_here r (c # cs) = Some t" using "7.prems" by simp
    then show ?thesis using "7.IH"(3) [OF False r] by blast
  qed
qed

lemma re_sub_keeps_head:
  "match_here pat (c # cs) = None \<Longrightarrow> re_sub pat repl (c # cs) = c # re_sub pat repl cs"
  by simp

subsection \<open>The table pass\<close>

lemma table_tail:
  "match_here [(Star, dot), (One, lit CHR ''|'')] s = None \<longleftrightarrow> CHR ''|'' \<notin> set (firstline s)"
proof (induction s)
  case Nil
  show ?case by simp
next
  case (Cons c cs)
  show ?case
  proof (cases "c = nl")
    case True
    then show ?thesis by simp
  next
    case False
    then show ?thesis using Cons
      by (cases "match_here [(Star, dot), (One, lit CHR ''|'')] cs")
         auto
  qed
qed

lemma table_none:
  "match_here table_re (c # cs) = None \<longleftrightarrow> (c = CHR ''|'' \<longrightarrow> CHR ''|'' \<notin> set (firstline cs))"
  using table_tail [of cs] by (simp add: table_re_def)

lemma table_empty [simp]: "match_here table_re [] = None"
  by (simp add: table_re_def)

lemma table_tail_no_nl:
  "match_here [(Star, dot), (One, lit CHR ''|'')] s = Some t \<Longrightarrow> \<exists>m. s = m @ t \<and> nl \<notin> set m"
proof (induction s arbitrary: t)
  case Nil
  then show ?case by simp
next
  case (Cons c cs)
  show ?case
  proof (cases "c = nl")
    case True
    then show ?thesis using Cons.prems by simp
  next
    case False
    show ?thesis
    proof (cases "match_here [(Star, dot), (One, lit CHR ''|'')] cs")
      case None
      then have "t = cs" using Cons.prems False by (simp split: if_splits)
      then have "c # cs = [c] @ t \<and> nl \<notin> set [c]" using False by simp
      then show ?thesis by blast
    next
      case (Some u)
      then have "u = t" using Cons.prems False by simp
      then obtain m where "cs = m @ t" "nl \<notin> set m" using Cons.IH Some by blast
      then have "c # cs = (c # m) @ t \<and> nl \<notin> set (c # m)" using False by simp
      then show ?thesis by blast
    qed
  qed
qed

lemma table_match_no_nl:
  assumes "match_here table_re s = Some t"
  shows "\<exists>m. s = m @ t \<and> nl \<notin> set m \<and> length t < length s"
proof (cases s)
  case Nil
  then show ?thesis using assms by simp
next
  case (Cons c cs)
  then have c: "c = CHR ''|''" and "match_here [(Star, dot), (One, lit CHR ''|'')] cs = Some t"
    using assms by (simp_all add: table_re_def split: if_splits)
  then obtain m where "cs = m @ t" "nl \<notin> set m" using table_tail_no_nl by blast
  then have "s = (c # m) @ t \<and> nl \<notin> set (c # m) \<and> length t < length s"
    using Cons c by simp
  then show ?thesis by blast
qed

lemma unmatched_table: "unmatched table_re s \<longleftrightarrow> one_bar_per_line s"
  by (induction s) (simp_all add: table_none)

lemma one_bar_suffix: "one_bar_per_line (a @ b) \<Longrightarrow> one_bar_per_line b"
  by (induction a) simp_all

lemma one_bar_prefix: "one_bar_per_line (a @ b) \<Longrightarrow> one_bar_per_line a"
proof (induction a)
  case Nil
  show ?case by simp
next
  case (Cons c a)
  then show ?case using firstline_prefix [of a b] by auto
qed

lemma firstline_table:
  "set (firstline (re_sub table_re [] s)) \<subseteq> set (firstline s)"
proof (induction s rule: length_induct)
  case (1 s)
  show ?case
  proof (cases s)
    case Nil
    then show ?thesis by simp
  next
    case (Cons c cs)
    show ?thesis
    proof (cases "match_here table_re (c # cs)")
      case None
      have "set (firstline (re_sub table_re [] cs)) \<subseteq> set (firstline cs)"
        using 1 Cons by simp
      then show ?thesis using None Cons by (cases "c = nl") auto
    next
      case (Some t)
      then obtain m where m: "c # cs = m @ t" "nl \<notin> set m" "length t < length (c # cs)"
        using table_match_no_nl by blast
      have "set (firstline (re_sub table_re [] t)) \<subseteq> set (firstline t)"
        using 1 Cons m(3) by simp
      moreover have "firstline (c # cs) = m @ firstline t"
        using m firstline_append by metis
      ultimately show ?thesis using Some Cons m(3) by auto
    qed
  qed
qed

lemma one_bar_table: "one_bar_per_line (re_sub table_re [] s)"
proof (induction s rule: length_induct)
  case (1 s)
  show ?case
  proof (cases s)
    case Nil
    then show ?thesis by simp
  next
    case (Cons c cs)
    show ?thesis
    proof (cases "match_here table_re (c # cs)")
      case None
      have "one_bar_per_line (re_sub table_re [] cs)" using 1 Cons by simp
      moreover have "c = CHR ''|'' \<longrightarrow> CHR ''|'' \<notin> set (firstline (re_sub table_re [] cs))"
        using None firstline_table [of cs] by (auto simp: table_none)
      ultimately show ?thesis using None Cons by simp
    next
      case (Some t)
      then have "length t < length (c # cs)"
        using table_match_no_nl by blast
      then show ?thesis using 1 Cons Some by simp
    qed
  qed
qed

subsection \<open>The citation pass\<close>

lemma citation_match:
  assumes "match_here citation_re s = Some t"
  shows "\<exists>m. s = m @ t \<and> nl \<notin> set m \<and> length t < length s"
proof -
  have "list_all (\<lambda>(q, p). \<not> p nl) citation_re"
    by (simp add: citation_re_def lit_def)
  then obtain m where m: "s = m @ t" "nl \<notin> set m"
    using match_here_no_nl assms by blast
  have "m \<noteq> []"
  proof
    assume "m = []"
    then have "match_here citation_re t = Some t" using assms m by simp
    then obtain c cs where t: "t = c # cs" "match_here [(Plus, py_isdecimal), (One, lit CHR '']'')] cs = Some (c # cs)"
      by (cases t) (auto simp: citation_re_def split: if_splits)
    then obtain k where "cs = k @ c # cs" using match_here_suffix by blast
    then have "length cs = length k + Suc (length cs)" by (metis length_append length_Cons)
    then show False by simp
  qed
  then show ?thesis using m by auto
qed

lemma firstline_citation:
  "set (firstline (re_sub citation_re [] s)) \<subseteq> set (firstline s)"
proof (induction s rule: length_induct)
  case (1 s)
  show ?case
  proof (cases s)
    case Nil
    then show ?thesis by (simp add: citation_re_def)
  next
    case (Cons c cs)
    show ?thesis
    proof (cases "match_here citation_re (c # cs)")
      case None
      have "set (firstline (re_sub citation_re [] cs)) \<subseteq> set (firstline cs)"
        using 1 Cons by simp
      then show ?thesis using None Cons by (cases "c = nl") auto
    next
      case (Some t)
      then obtain m where m: "c # cs = m @ t" "nl \<notin> set m" "length t < length (c # cs)"
        using citation_match by blast
      have "set (firstline (re_sub citation_re [] t)) \<subseteq> set (firstline t)"
        using 1 Cons m(3) by simp
      moreover have "firstline (c # cs) = m @ firstline t"
        using m firstline_append by metis
      ultimately show ?thesis using Some Cons m(3) by auto
    qed
  qed
qed

lemma one_bar_citation:
  "one_bar_per_line s \<Longrightarrow> one_bar_per_line (re_sub citation_re [] s)"
proof (induction s rule: length_induct)
  case (1 s)
  show ?case
  proof (cases s)
    case Nil
    then show ?thesis by (simp add: citation_re_def)
  next
    case (Cons c cs)
    show ?thesis
    proof (cases "match_here citation_re (c # cs)")
      case None
      have "one_bar_per_line (re_sub citation_re [] cs)" using 1 Cons by simp
      moreover have "c = CHR ''|'' \<longrightarrow> CHR ''|'' \<notin> set (firstline (re_sub citation_re [] cs))"
        using "1.prems" Cons firstline_citation [of cs] by auto
      ultimately show ?thesis using None Cons by simp
    next
      case (Some t)
      then obtain m where m: "c # cs = m @ t" and l: "length t < length (c # cs)"
        using citation_match by blast
      have "one_bar_per_line t" using "1.prems" Cons m one_bar_suffix by metis
      then have "one_bar_per_line (re_sub citation_re [] t)" using 1 Cons l by simp
      then show ?thesis using Cons Some l by simp
    qed
  qed
qed

subsection \<open>The header pass\<close>

lemma rest_of_line:
  "\<exists>t. match_here [(Star, dot)] s = Some t \<and> (t = [] \<or> hd t = nl) \<and> length t \<le> length s"
proof (induction s)
  case Nil
  show ?case by simp
next
  case (Cons c cs)
  then obtain t where "match_here [(Star, dot)] cs = Some t" "t = [] \<or> hd t = nl"
    "length t \<le> length cs" by blast
  then show ?case by (cases "c = nl") simp_all
qed

lemma header_tail:
  "match_here [(Star, lit CHR ''#''), (One, py_isspace), (Star, dot)] s = Some t \<Longrightarrow>
     (t = [] \<or> hd t = nl) \<and> length t < length s"
proof (induction s arbitrary: t)
  case Nil
  then show ?case by simp
next
  case (Cons c cs)
  show ?case
  proof (cases "c = CHR ''#''")
    case True
    show ?thesis
    proof (cases "match_here [(Star, lit CHR ''#''), (One, py_isspace), (Star, dot)] cs")
      case None
      then show ?thesis using Cons.prems True by simp
    next
      case (Some u)
      then have "u = t" using Cons.prems True by simp
      then show ?thesis using Cons.IH Some by fastforce
    qed
  next
    case False
    then have sp: "py_isspace c" and m: "match_here [(Star, dot)] cs = Some t"
      using Cons.prems by (simp_all split: if_splits)
    then show ?thesis using rest_of_line [of cs] by auto
  qed
qed

lemma header_match:
  assumes "match_here header_re s = Some t"
  shows "(t = [] \<or> hd t = nl) \<and> length t < length s"
proof (cases s)
  case Nil
  then show ?thesis using assms by (simp add: header_re_def)
next
  case (Cons c cs)
  then have "match_here [(Star, lit CHR ''#''), (One, py_isspace), (Star, dot)] cs = Some t"
    using assms by (simp add: header_re_def split: if_splits)
  then show ?thesis using header_tail [of cs t] Cons by simp
qed

lemma header_not_hash: "c \<noteq> CHR ''#'' \<Longrightarrow> match_here header_re (c # cs) = None"
  by (simp add: header_re_def)

lemma header_empty [simp]: "match_here header_re [] = None"
  by (simp add: header_re_def)

lemma header_hash:
  "match_here header_re (CHR ''#'' # cs) =
     match_here [(Star, lit CHR ''#''), (One, py_isspace), (Star, dot)] cs"
  by (simp add: header_re_def)

lemma header_tail_none:
  assumes "match_here [(Star, lit CHR ''#''), (One, py_isspace), (Star, dot)] s = None"
  shows "s = [] \<or> (\<not> py_isspace (hd s) \<and> match_here header_re s = None)"
proof (cases s)
  case Nil
  then show ?thesis by simp
next
  case (Cons d ds)
  show ?thesis
  proof (cases "d = CHR ''#''")
    case True
    then have "match_here [(Star, lit CHR ''#''), (One, py_isspace), (Star, dot)] ds = None"
      using assms Cons by (simp split: option.splits)
    then show ?thesis using Cons True by (simp add: header_hash)
  next
    case False
    have "\<not> py_isspace d"
    proof
      assume "py_isspace d"
      then have "match_here [(Star, lit CHR ''#''), (One, py_isspace), (Star, dot)] (d # ds) =
          match_here [(Star, dot)] ds" using False by simp
      then show False using assms Cons rest_of_line [of ds] by auto
    qed
    then show ?thesis using Cons False by (simp add: header_not_hash)
  qed
qed

lemma hash_free_Cons:
  "hash_free (c # s) \<longleftrightarrow> (c = CHR ''#'' \<longrightarrow> s = [] \<or> \<not> py_isspace (hd s)) \<and> hash_free s"
  by (cases s) auto

lemma hash_free_tail_none:
  "hash_free (CHR ''#'' # s) \<Longrightarrow>
     match_here [(Star, lit CHR ''#''), (One, py_isspace), (Star, dot)] s = None"
proof (induction s)
  case Nil
  show ?case by simp
next
  case (Cons c cs)
  then have nsp: "\<not> py_isspace c" and hf: "hash_free (c # cs)" by simp_all
  show ?case
  proof (cases "c = CHR ''#''")
    case True
    then have "match_here [(Star, lit CHR ''#''), (One, py_isspace), (Star, dot)] cs = None"
      using Cons.IH hf by simp
    then show ?thesis using True by simp
  next
    case False
    then show ?thesis using nsp by simp
  qed
qed

lemma hash_free_unmatched: "hash_free s \<Longrightarrow> unmatched header_re s"
proof (induction s)
  case Nil
  show ?case by simp
next
  case (Cons c cs)
  then have u: "unmatched header_re cs" by (simp add: hash_free_Cons)
  have "match_here header_re (c # cs) = None"
  proof (cases "c = CHR ''#''")
    case True
    then show ?thesis using Cons.prems hash_free_tail_none [of cs] by (simp add: header_hash)
  next
    case False
    then show ?thesis by (rule header_not_hash)
  qed
  then show ?case using u by simp
qed

lemma hash_free_suffix: "hash_free (a @ b) \<Longrightarrow> hash_free b"
  by (induction a) (simp_all add: hash_free_Cons)

lemma hash_free_prefix: "hash_free (a @ b) \<Longrightarrow> hash_free a"
proof (induction a)
  case Nil
  show ?case by simp
next
  case (Cons c a)
  then show ?case by (cases a) (auto simp: hash_free_Cons)
qed

lemma hash_free_header: "hash_free (re_sub header_re [] s)"
proof (induction s rule: length_induct)
  case (1 s)
  show ?case
  proof (cases s)
    case Nil
    then show ?thesis by simp
  next
    case (Cons c cs)
    show ?thesis
    proof (cases "match_here header_re (c # cs)")
      case None
      have ih: "hash_free (re_sub header_re [] cs)" using 1 Cons by simp
      have "c = CHR ''#'' \<longrightarrow> re_sub header_re [] cs = [] \<or> \<not> py_isspace (hd (re_sub header_re [] cs))"
      proof
        assume c: "c = CHR ''#''"
        then have "match_here [(Star, lit CHR ''#''), (One, py_isspace), (Star, dot)] cs = None"
          using None by (simp add: header_hash)
        then have "cs = [] \<or> (\<not> py_isspace (hd cs) \<and> match_here header_re cs = None)"
          by (rule header_tail_none)
        then show "re_sub header_re [] cs = [] \<or> \<not> py_isspace (hd (re_sub header_re [] cs))"
        proof
          assume "cs = []"
          then show ?thesis by simp
        next
          assume a: "\<not> py_isspace (hd cs) \<and> match_here header_re cs = None"
          then show ?thesis by (cases cs) simp_all
        qed
      qed
      then show ?thesis using None Cons ih by (simp add: hash_free_Cons)
    next
      case (Some t)
      then have "length t < length (c # cs)" using header_match by blast
      then show ?thesis using 1 Cons Some by simp
    qed
  qed
qed

lemma firstline_header:
  "set (firstline (re_sub header_re [] s)) \<subseteq> set (firstline s)"
proof (induction s rule: length_induct)
  case (1 s)
  show ?case
  proof (cases s)
    case Nil
    then show ?thesis by simp
  next
    case (Cons c cs)
    show ?thesis
    proof (cases "match_here header_re (c # cs)")
      case None
      have "set (firstline (re_sub header_re [] cs)) \<subseteq> set (firstline cs)"
        using 1 Cons by simp
      then show ?thesis using None Cons by (cases "c = nl") auto
    next
      case (Some t)
      then have t: "t = [] \<or> hd t = nl" and l: "length t < length (c # cs)"
        using header_match by blast+
      have "firstline (re_sub header_re [] t) = []"
      proof (cases t)
        case Nil
        then show ?thesis by simp
      next
        case (Cons d ds)
        then have "d = nl" using t by simp
        then show ?thesis using Cons by (simp add: header_not_hash)
      qed
      then show ?thesis using Some Cons l by simp
    qed
  qed
qed

lemma one_bar_header:
  "one_bar_per_line s \<Longrightarrow> one_bar_per_line (re_sub header_re [] s)"
proof (induction s rule: length_induct)
  case (1 s)
  show ?case
  proof (cases s)
    case Nil
    then show ?thesis by simp
  next
    case (Cons c cs)
    show ?thesis
    proof (cases "match_here header_re (c # cs)")
      case None
      have "one_bar_per_line (re_sub header_re [] cs)" using 1 Cons by simp
      moreover have "c = CHR ''|'' \<longrightarrow> CHR ''|'' \<notin> set (firstline (re_sub header_re [] cs))"
        using "1.prems" Cons firstline_header [of cs] by auto
      ultimately show ?thesis using None Cons by simp
    next
      case (Some t)
      then have l: "length t < length (c # cs)" using header_match by blast
      obtain m where "c # cs = m @ t" using Some match_here_suffix by blast
      then have "one_bar_per_line t" using "1.prems" Cons one_bar_suffix by metis
      then have "one_bar_per_line (re_sub header_re [] t)" using 1 Cons l by simp
      then show ?thesis using Cons Some l by simp
    qed
  qed
qed

subsection \<open>The blank-line pass\<close>

lemma blank_start_Nil [simp]: "\<not> blank_start []"
  by (simp add: blank_start_def)

lemma blank_start_Cons:
  "blank_start (c # cs) \<longleftrightarrow> py_isspace c \<and> (blank_start cs \<or> c = nl)"
  by (cases "c = nl") (auto simp: blank_start_def split: option.splits)

lemma blank_tail:
  "match_here [(Star, py_isspace), (One, lit nl)] s = Some t \<Longrightarrow>
     \<not> blank_start t \<and> length t < length s"
proof (induction s arbitrary: t)
  case Nil
  then show ?case by simp
next
  case (Cons c cs)
  show ?case
  proof (cases "match_here [(Star, py_isspace), (One, lit nl)] cs")
    case None
    then have "t = cs" using Cons.prems by (simp split: if_splits)
    then show ?thesis using None by (simp add: blank_start_def)
  next
    case (Some u)
    have "py_isspace c"
    proof (rule ccontr)
      assume "\<not> py_isspace c"
      then have "c \<noteq> nl" by auto
      then show False using Cons.prems \<open>\<not> py_isspace c\<close> by simp
    qed
    then have "u = t" using Cons.prems Some by simp
    then show ?thesis using Cons.IH Some by fastforce
  qed
qed

lemma blank_none:
  "match_here blank_re (c # cs) = None \<longleftrightarrow> \<not> (c = nl \<and> blank_start cs)"
  by (simp add: blank_re_def blank_start_def)

lemma blank_not_nl: "c \<noteq> nl \<Longrightarrow> match_here blank_re (c # cs) = None"
  by (simp add: blank_none)

lemma blank_empty [simp]: "match_here blank_re [] = None"
  by (simp add: blank_re_def)

lemma blank_match:
  assumes "match_here blank_re s = Some t"
  shows "\<not> blank_start t \<and> length t < length s \<and> (\<exists>cs. s = nl # cs)"
proof (cases s)
  case Nil
  then show ?thesis using assms by simp
next
  case (Cons c cs)
  then have "c = nl" and "match_here [(Star, py_isspace), (One, lit nl)] cs = Some t"
    using assms by (simp_all add: blank_re_def split: if_splits)
  then show ?thesis using blank_tail [of cs t] Cons by simp
qed

lemma blank_start_re_sub:
  "\<not> blank_start s \<Longrightarrow> \<not> blank_start (re_sub blank_re [nl] s)"
proof (induction s)
  case Nil
  show ?case by simp
next
  case (Cons c cs)
  show ?case
  proof (cases "py_isspace c")
    case False
    then have "c \<noteq> nl" by auto
    then have "re_sub blank_re [nl] (c # cs) = c # re_sub blank_re [nl] cs"
      by (simp add: blank_not_nl)
    then show ?thesis using False by (simp add: blank_start_Cons)
  next
    case True
    then have c: "c \<noteq> nl" and n: "\<not> blank_start cs"
      using Cons.prems by (auto simp: blank_start_Cons)
    then have "re_sub blank_re [nl] (c # cs) = c # re_sub blank_re [nl] cs"
      by (simp add: blank_not_nl)
    then show ?thesis using Cons.IH [OF n] c by (simp add: blank_start_Cons)
  qed
qed

lemma unmatched_blank: "unmatched blank_re (re_sub blank_re [nl] s)"
proof (induction s rule: length_induct)
  case (1 s)
  show ?case
  proof (cases s)
    case Nil
    then show ?thesis by simp
  next
    case (Cons c cs)
    show ?thesis
    proof (cases "match_here blank_re (c # cs)")
      case None
      have ih: "unmatched blank_re (re_sub blank_re [nl] cs)" using 1 Cons by simp
      have "\<not> (c = nl \<and> blank_start (re_sub blank_re [nl] cs))"
        using None blank_start_re_sub [of cs] by (auto simp: blank_none)
      then have "match_here blank_re (c # re_sub blank_re [nl] cs) = None"
        by (simp add: blank_none)
      moreover have "re_sub blank_re [nl] (c # cs) = c # re_sub blank_re [nl] cs"
        using None by simp
      ultimately show ?thesis using Cons ih by simp
    next
      case (Some t)
      then have t: "\<not> blank_start t" and l: "length t < length (c # cs)"
        using blank_match by blast+
      have ih: "unmatched blank_re (re_sub blank_re [nl] t)" using 1 Cons l by simp
      have "\<not> blank_start (re_sub blank_re [nl] t)" using t by (rule blank_start_re_sub)
      then have "match_here blank_re (nl # re_sub blank_re [nl] t) = None"
        by (simp add: blank_none)
      moreover have "re_sub blank_re [nl] (c # cs) = nl # re_sub blank_re [nl] t"
        using Some l by simp
      ultimately show ?thesis using Cons ih by simp
    qed
  qed
qed

lemma blank_start_append: "blank_start a \<Longrightarrow> blank_start (a @ b)"
  by (induction a) (auto simp: blank_start_Cons)

lemma unmatched_blank_prefix: "unmatched blank_re (a @ b) \<Longrightarrow> unmatched blank_re a"
proof (induction a)
  case Nil
  show ?case by simp
next
  case (Cons c a)
  then show ?case using blank_start_append [of a b] by (auto simp: blank_none)
qed

lemma firstline_blank:
  "set (firstline (re_sub blank_re [nl] s)) \<subseteq> set (firstline s)"
proof (induction s rule: length_induct)
  case (1 s)
  show ?case
  proof (cases s)
    case Nil
    then show ?thesis by simp
  next
    case (Cons c cs)
    show ?thesis
    proof (cases "match_here blank_re (c # cs)")
      case None
      have "set (firstline (re_sub blank_re [nl] cs)) \<subseteq> set (firstline cs)"
        using 1 Cons by simp
      then show ?thesis using None Cons by (cases "c = nl") auto
    next
      case (Some t)
      then have l: "length t < length (c # cs)" using blank_match by blast
      then show ?thesis using Some Cons by simp
    qed
  qed
qed

lemma one_bar_blank:
  "one_bar_per_line s \<Longrightarrow> one_bar_per_line (re_sub blank_re [nl] s)"
proof (induction s rule: length_induct)
  case (1 s)
  show ?case
  proof (cases s)
    case Nil
    then show ?thesis by simp
  next
    case (Cons c cs)
    show ?thesis
    proof (cases "match_here blank_re (c # cs)")
      case None
      have "one_bar_per_line (re_sub blank_re [nl] cs)" using 1 Cons by simp
      moreover have "c = CHR ''|'' \<longrightarrow> CHR ''|'' \<notin> set (firstline (re_sub blank_re [nl] cs))"
        using "1.prems" Cons firstline_blank [of cs] by auto
      ultimately show ?thesis using None Cons by simp
    next
      case (Some t)
      then have l: "length t < length (c # cs)" using blank_match by blast
      obtain m where "c # cs = m @ t" using Some match_here_suffix by blast
      then have "one_bar_per_line t" using "1.prems" Cons one_bar_suffix by metis
      then have "one_bar_per_line (re_sub blank_re [nl] t)" using 1 Cons l by simp
      then show ?thesis using Cons Some l by simp
    qed
  qed
qed

lemma hash_free_blank:
  "hash_free s \<Longrightarrow> hash_free (re_sub blank_re [nl] s)"
proof (induction s rule: length_induct)
  case (1 s)
  show ?case
  proof (cases s)
    case Nil
    then show ?thesis by simp
  next
    case (Cons c cs)
    show ?thesis
    proof (cases "match_here blank_re (c # cs)")
      case None
      have ih: "hash_free (re_sub blank_re [nl] cs)"
        using 1 Cons by (simp add: hash_free_Cons)
      have "c = CHR ''#'' \<longrightarrow>
          re_sub blank_re [nl] cs = [] \<or> \<not> py_isspace (hd (re_sub blank_re [nl] cs))"
      proof
        assume "c = CHR ''#''"
        then have "cs = [] \<or> \<not> py_isspace (hd cs)"
          using "1.prems" Cons by (simp add: hash_free_Cons)
        then show "re_sub blank_re [nl] cs = [] \<or> \<not> py_isspace (hd (re_sub blank_re [nl] cs))"
        proof
          assume "cs = []"
          then show ?thesis by simp
        next
          assume a: "\<not> py_isspace (hd cs)"
          show ?thesis
          proof (cases cs)
            case Nil
            then show ?thesis by simp
          next
            case (Cons d ds)
            then have "d \<noteq> nl" using a by auto
            then show ?thesis using Cons a by (simp add: blank_not_nl)
          qed
        qed
      qed
      then show ?thesis using None Cons ih by (simp add: hash_free_Cons)
    next
      case (Some t)
      then have l: "length t < length (c # cs)" using blank_match by blast
      obtain m where "c # cs = m @ t" using Some match_here_suffix by blast
      then have "hash_free t" using "1.prems" Cons hash_free_suffix by metis
      then have "hash_free (re_sub blank_re [nl] t)" using 1 Cons l by simp
      then show ?thesis using Cons Some l by (simp add: hash_free_Cons)
    qed
  qed
qed

subsection \<open>Stripping, and the cleaned text as a fixed point\<close>

lemma py_strip_factor: "\<exists>a b. s = a @ py_strip s @ b"
proof -
  define u where "u = dropWhile py_isspace s"
  have "s = takeWhile py_isspace s @ u" by (simp add: u_def)
  moreover have "rev u = takeWhile py_isspace (rev u) @ dropWhile py_isspace (rev u)" by simp
  then have "u = rev (dropWhile py_isspace (rev u)) @ rev (takeWhile py_isspace (rev u))"
    by (metis rev_append rev_rev_ident)
  ultimately have "s = takeWhile py_isspace s @ py_strip s @ rev (takeWhile py_isspace (rev u))"
    by (simp add: py_strip_def u_def)
  then show ?thesis by blast
qed

lemma dropWhile_id: "xs = [] \<or> \<not> P (hd xs) \<Longrightarrow> dropWhile P xs = xs"
  by (cases xs) auto

lemma py_strip_idem: "py_strip (py_strip s) = py_strip s"
proof -
  define u where "u = dropWhile py_isspace s"
  define v where "v = dropWhile py_isspace (rev u)"
  have s: "py_strip s = rev v" by (simp add: py_strip_def u_def v_def)
  have hu: "u = [] \<or> \<not> py_isspace (hd u)"
    unfolding u_def by (metis hd_dropWhile)
  have hv: "v = [] \<or> \<not> py_isspace (hd v)"
    unfolding v_def by (metis hd_dropWhile)
  have "rev u = takeWhile py_isspace (rev u) @ v" by (simp add: v_def)
  then have u: "u = rev v @ rev (takeWhile py_isspace (rev u))"
    by (metis rev_append rev_rev_ident)
  have "rev v = [] \<or> \<not> py_isspace (hd (rev v))"
  proof (cases "rev v")
    case Nil
    then show ?thesis by simp
  next
    case (Cons x xs)
    then have "hd u = x" using u by (metis append_Cons list.sel(1))
    moreover have "u \<noteq> []" using u Cons by auto
    ultimately show ?thesis using hu Cons by simp
  qed
  then have a: "dropWhile py_isspace (rev v) = rev v" by (rule dropWhile_id)
  have b: "dropWhile py_isspace v = v" using hv by (rule dropWhile_id)
  show ?thesis unfolding s by (simp add: py_strip_def a b)
qed

text \<open>
  The cleaned text is left unchanged by every pass except, possibly, the citation pass.
\<close>

lemma clean_text_fixed:
  "re_sub table_re [] (clean_text s) = clean_text s"
  "re_sub header_re [] (clean_text s) = clean_text s"
  "re_sub blank_re [nl] (clean_text s) = clean_text s"
  "py_strip (clean_text s) = clean_text s"
proof -
  define t1 where "t1 = re_sub table_re [] s"
  define t2 where "t2 = re_sub citation_re [] t1"
  define t3 where "t3 = re_sub header_re [] t2"
  define t4 where "t4 = re_sub blank_re [nl] t3"
  have c: "clean_text s = py_strip t4"
    by (simp add: clean_text_def t1_def t2_def t3_def t4_def)
  obtain a b where f: "t4 = a @ py_strip t4 @ b" using py_strip_factor by blast
  have "one_bar_per_line t1" unfolding t1_def by (rule one_bar_table)
  then have "one_bar_per_line t2" unfolding t2_def by (rule one_bar_citation)
  then have "one_bar_per_line t3" unfolding t3_def by (rule one_bar_header)
  then have "one_bar_per_line t4" unfolding t4_def by (rule one_bar_blank)
  then have "one_bar_per_line (py_strip t4)"
    using f one_bar_suffix one_bar_prefix by metis
  then show "re_sub table_re [] (clean_text s) = clean_text s"
    unfolding c by (simp add: re_sub_unmatched unmatched_table)
  have "hash_free t3" unfolding t3_def by (rule hash_free_header)
  then have "hash_free t4" unfolding t4_def by (rule hash_free_blank)
  then have "hash_free (py_strip t4)"
    using f hash_free_suffix hash_free_prefix by metis
  then show "re_sub header_re [] (clean_text s) = clean_text s"
    unfolding c by (simp add: re_sub_unmatched hash_free_unmatched)
  have "unmatched blank_re t4" unfolding t4_def by (rule unmatched_blank)
  then have "unmatched blank_re (py_strip t4)"
    using f unmatched_suffix unmatched_blank_prefix by metis
  then show "re_sub blank_re [nl] (clean_text s) = clean_text s"
    unfolding c by (simp add: re_sub_unmatched)
  show "py_strip (clean_text s) = clean_text s"
    unfolding c by (rule py_strip_idem)
qed

lemma re_sub_delete_length:
  "re_sub pat [] s = s \<or> length (re_sub pat [] s) < length s"
proof (induction s rule: length_induct)
  case (1 s)
  show ?case
  proof (cases s)
    case Nil
    then show ?thesis by (simp split: option.splits)
  next
    case (Cons c cs)
    show ?thesis
    proof (cases "match_here pat (c # cs)")
      case None
      have "re_sub pat [] cs = cs \<or> length (re_sub pat [] cs) < length cs"
        using 1 Cons by simp
      then show ?thesis using None Cons by auto
    next
      case (Some t)
      show ?thesis
      proof (cases "length t < length (c # cs)")
        case True
        then have "re_sub pat [] t = t \<or> length (re_sub pat [] t) < length t"
          using 1 Cons by simp
        then show ?thesis using Some Cons True by auto
      next
        case False
        have "re_sub pat [] cs = cs \<or> length (re_sub pat [] cs) < length cs"
          using 1 Cons by simp
        then show ?thesis using Some Cons False by auto
      qed
    qed
  qed
qed

lemma re_sub_delete_le: "length (re_sub pat [] s) \<le> length s"
  using re_sub_delete_length [of pat s] by auto

lemma re_sub_blank_le: "length (re_sub blank_re [nl] s) \<le> length s"
proof (induction s rule: length_induct)
  case (1 s)
  show ?case
  proof (cases s)
    case Nil
    then show ?thesis by simp
  next
    case (Cons c cs)
    show ?thesis
    proof (cases "match_here blank_re (c # cs)")
      case None
      have "length (re_sub blank_re [nl] cs) \<le> length cs" using 1 Cons by simp
      then show ?thesis using None Cons by simp
    next
      case (Some t)
      then have l: "length t < length (c # cs)" using blank_match by blast
      then have "length (re_sub blank_re [nl] t) \<le> length t" using 1 Cons by simp
      then show ?thesis using Some Cons l by simp
    qed
  qed
qed

lemma py_strip_le: "length (py_strip s) \<le> length s"
proof -
  have "length (dropWhile py_isspace (rev (dropWhile py_isspace s))) \<le>
      length (rev (dropWhile py_isspace s))"
    by (rule length_dropWhile_le)
  also have "\<dots> \<le> length s" by (simp add: length_dropWhile_le)
  finally show ?thesis by (simp add: py_strip_def)
qed

lemma clean_text_le:
  "length (py_strip (re_sub blank_re [nl] (re_sub header_re [] u))) \<le> length u"
proof -
  have "length (py_strip (re_sub blank_re [nl] (re_sub header_re [] u))) \<le>
      length (re_sub blank_re [nl] (re_sub header_re [] u))" by (rule py_strip_le)
  also have "\<dots> \<le> length (re_sub header_re [] u)" by (rule re_sub_blank_le)
  also have "\<dots> \<le> length u" by (rule re_sub_delete_le)
  finally show ?thesis .
qed

lemma set_re_sub_delete: "set (re_sub pat [] s) \<subseteq> set s"
proof (induction s rule: length_induct)
  case (1 s)
  show ?case
  proof (cases s)
    case Nil
    then show ?thesis by (simp split: option.splits)
  next
    case (Cons c cs)
    have ih: "set (re_sub pat [] cs) \<subseteq> set cs" using 1 Cons by simp
    show ?thesis
    proof (cases "match_here pat (c # cs)")
      case None
      then show ?thesis using ih Cons by auto
    next
      case (Some t)
      show ?thesis
      proof (cases "length t < length (c # cs)")
        case True
        then have "set (re_sub pat [] t) \<subseteq> set t" using 1 Cons by simp
        moreover obtain m where "c # cs = m @ t" using Some match_here_suffix by blast
        then have "set t \<subseteq> set (c # cs)" by (metis set_append Un_upper2)
        ultimately show ?thesis using Some Cons True by auto
      next
        case False
        then show ?thesis using Some Cons ih by auto
      qed
    qed
  qed
qed

lemma set_re_sub_blank: "set (re_sub blank_re [nl] s) \<subseteq> set s"
proof (induction s rule: length_induct)
  case (1 s)
  show ?case
  proof (cases s)
    case Nil
    then show ?thesis by simp
  next
    case (Cons c cs)
    show ?thesis
    proof (cases "match_here blank_re (c # cs)")
      case None
      have "set (re_sub blank_re [nl] cs) \<subseteq> set cs" using 1 Cons by simp
      then show ?thesis using None Cons by auto
    next
      case (Some t)
      then have l: "length t < length (c # cs)" and c: "c = nl"
        using blank_match [of "c # cs" t] by auto
      then have "set (re_sub blank_re [nl] t) \<subseteq> set t" using 1 Cons by simp
      moreover obtain m where "c # cs = m @ t" using Some match_here_suffix by blast
      then have "set t \<subseteq> set (c # cs)" by (metis set_append Un_upper2)
      ultimately show ?thesis using Some Cons l c by auto
    qed
  qed
qed

lemma set_py_strip: "set (py_strip s) \<subseteq> set s"
proof -
  obtain a b where "s = a @ py_strip s @ b" using py_strip_factor by blast
  then have "set s = set a \<union> set (py_strip s) \<union> set b" by (metis set_append Un_assoc)
  then show ?thesis by auto
qed

lemma set_clean_text: "set (clean_text s) \<subseteq> set s"
proof -
  have "set (clean_text s) \<subseteq>
      set (re_sub blank_re [nl] (re_sub header_re [] (re_sub citation_re []
        (re_sub table_re [] s))))"
    unfolding clean_text_def by (rule set_py_strip)
  also have "\<dots> \<subseteq> set (re_sub header_re [] (re_sub citation_re [] (re_sub table_re [] s)))"
    by (rule set_re_sub_blank)
  also have "\<dots> \<subseteq> set (re_sub citation_re [] (re_sub table_re [] s))"
    by (rule set_re_sub_delete)
  also have "\<dots> \<subseteq> set (re_sub table_re [] s)" by (rule set_re_sub_delete)
  also have "\<dots> \<subseteq> set s" by (rule set_re_sub_delete)
  finally show ?thesis .
qed

lemma citation_not_bracket: "c \<noteq> CHR ''['' \<Longrightarrow> match_here citation_re (c # cs) = None"
  by (simp add: citation_re_def)

lemma citation_empty [simp]: "match_here citation_re [] = None"
  by (simp add: citation_re_def)

lemma no_bracket_unmatched: "CHR ''['' \<notin> set s \<Longrightarrow> unmatched citation_re s"
  by (induction s) (auto simp: citation_not_bracket)

text \<open>
  Claim C6, as amended. Cleaning a cleaned text again changes nothing exactly when the
  cleaned text holds no citation marker \<^verbatim>\<open>[digits]\<close> any more, that is, when the
  citation pass leaves it unchanged; in particular cleaning is idempotent on every text
  without an opening square bracket.
\<close>

theorem clean_text_idempotent:
  "(clean_text (clean_text s) = clean_text s \<longleftrightarrow>
      re_sub citation_re [] (clean_text s) = clean_text s) \<and>
   (CHR ''['' \<notin> set s \<longrightarrow> clean_text (clean_text s) = clean_text s)"
proof -
  define t where "t = clean_text s"
  have "re_sub table_re [] t = t" unfolding t_def by (rule clean_text_fixed(1))
  then have unf: "clean_text t =
      py_strip (re_sub blank_re [nl] (re_sub header_re [] (re_sub citation_re [] t)))"
    unfolding clean_text_def [of t] by simp
  have if_fixed: "clean_text t = t" if "re_sub citation_re [] t = t"
    using that by (simp add: unf) (simp add: t_def clean_text_fixed)
  have only_if: "re_sub citation_re [] t = t" if "clean_text t = t"
  proof (rule ccontr)
    assume "re_sub citation_re [] t \<noteq> t"
    then have "length (re_sub citation_re [] t) < length t"
      using re_sub_delete_length [of citation_re t] by simp
    moreover have "length (clean_text t) \<le> length (re_sub citation_re [] t)"
      unfolding unf by (rule clean_text_le)
    ultimately show False using that by simp
  qed
  have "re_sub citation_re [] t = t" if "CHR ''['' \<notin> set s"
  proof -
    have "CHR ''['' \<notin> set t" using that set_clean_text [of s] by (auto simp: t_def)
    then show ?thesis by (simp add: re_sub_unmatched no_bracket_unmatched)
  qed
  then show ?thesis using if_fixed only_if unfolding t_def by blast
qed

theorem clean_text_idempotent_witness:
  "CHR ''['' \<notin> set (''# Title'' @ [nl, nl, nl] @ ''Body |a|b| text.  '') \<and>
   clean_text (''# Title'' @ [nl, nl, nl] @ ''Body |a|b| text.  '') = ''Body  text.'' \<and>
   clean_text (clean_text (''# Title'' @ [nl, nl, nl] @ ''Body |a|b| text.  '')) =
     clean_text (''# Title'' @ [nl, nl, nl] @ ''Body |a|b| text.  '')"
proof -
  have a: "CHR ''['' \<notin> set (''# Title'' @ [nl, nl, nl] @ ''Body |a|b| text.  '')"
    by (simp add: nl_def)
  have b: "clean_text (''# Title'' @ [nl, nl, nl] @ ''Body |a|b| text.  '') = ''Body  text.''"
    by (simp add: clean_text_def py_strip_def table_re_def citation_re_def header_re_def
        blank_re_def lit_def dot_def nl_def py_isspace_def py_isdecimal_def)
  show ?thesis
    using a b clean_text_idempotent [of "''# Title'' @ [nl, nl, nl] @ ''Body |a|b| text.  ''"]
    by blast
qed

text \<open>
  Claim C6 as stated fails: removing the inner marker of \<^verbatim>\<open>[[1]2]\<close> leaves the marker
  \<^verbatim>\<open>[2]\<close>, which a second cleaning removes.
\<close>

theorem clean_text_idempotent_counterexample:
  "clean_text ''[[1]2]'' = ''[2]'' \<and> clean_text (clean_text ''[[1]2]'') = '''' \<and>
   clean_text (clean_text ''[[1]2]'') \<noteq> clean_text ''[[1]2]''"
  by (simp add: clean_text_def py_strip_def table_re_def citation_re_def header_re_def
      blank_re_def lit_def dot_def nl_def py_isspace_def py_isdecimal_def)

end
